theory Spec2Isabelle
  imports Main
begin

section \<open>Data model of \<open>src/index.ts\<close>\<close>

text \<open>
  Request and response of the SDK's \<open>GetQueryResultsCommand\<close>. The request record has
  the fields the source writes (\<open>QueryExecutionId\<close>, \<open>NextToken\<close>, \<open>MaxResults\<close>) and the
  SDK's optional \<open>QueryResultType\<close>, so that "this field is never sent" can be said.
  An optional property (\<open>x?: string\<close>) is an \<open>option\<close>: a missing property and an
  explicit \<open>undefined\<close> both read as \<open>undefined\<close>, which is \<open>None\<close>.
\<close>

record GetQueryResultsCommandInput =
  QueryExecutionId :: string
  NextToken :: "string option"
  MaxResults :: "int option"
  QueryResultType :: "string option"

text \<open>The response: \<open>response.ResultSet\<close> and \<open>response.NextToken\<close>.\<close>

record 'rs GetQueryResultsCommandOutput =
  ResultSet :: "'rs option"
  NextToken_out :: "string option"

text \<open>\<open>interface PageResult<T>\<close>.\<close>

record 't PageResult =
  rows :: "'t list"
  nextToken :: "string option"
  rowCount :: nat

text \<open>
  \<open>interface PagerOptions\<close> (both fields optional) and \<open>Required<PagerOptions>\<close>.
  The literal type \<open>'DATA_ROWS'\<close> is a string at run time; it is kept a string here so
  that pagers that differ in it exist.
\<close>

record PagerOptions =
  maxResults_opt :: "int option"
  queryResultType_opt :: "string option"

record RequiredPagerOptions =
  maxResults :: int
  queryResultType :: string

definition DEFAULT_MAX_RESULTS :: int where
  "DEFAULT_MAX_RESULTS = 1000"

definition DEFAULT_QUERY_RESULT_TYPE :: string where
  "DEFAULT_QUERY_RESULT_TYPE = ''DATA_ROWS''"

text \<open>
  The pager object: \<open>client\<close> is the state of the caller's client object, \<open>parser\<close> the
  state of the owned \<open>AthenaQueryResultParser\<close>. Both classes belong to other packages
  and are parameters of the model:
  \<^item> \<open>send c input\<close> is \<open>client.send(new GetQueryResultsCommand(input))\<close>: the response
    or the error it rejects with, and the client's next state;
  \<^item> \<open>parseResultSet p rs\<close> and \<open>parseResultSetWith p rs rowParser\<close> are the parser's
    two methods: the rows or the error thrown, and the parser's next state;
  \<^item> \<open>newParser\<close> is \<open>new AthenaQueryResultParser()\<close>.
\<close>

record ('c, 'p) AthenaQueryResultPager =
  client :: 'c
  options :: RequiredPagerOptions
  parser :: 'p

type_synonym ('c, 'rs, 'e) send =
  "'c \<Rightarrow> GetQueryResultsCommandInput \<Rightarrow> ('e + 'rs GetQueryResultsCommandOutput) \<times> 'c"

type_synonym ('p, 'rs, 'e, 'r) parseResultSet =
  "'p \<Rightarrow> 'rs option \<Rightarrow> ('e + 'r list) \<times> 'p"

type_synonym ('p, 'rs, 'e, 'r, 't) parseResultSetWith =
  "'p \<Rightarrow> 'rs option \<Rightarrow> ('r \<Rightarrow> 'e + 't) \<Rightarrow> ('e + 't list) \<times> 'p"

section \<open>Operations\<close>

text \<open>\<open>static hasNextPage\<close>: \<open>pageResult.nextToken !== undefined\<close>.\<close>

definition hasNextPage :: "'t PageResult \<Rightarrow> bool" where
  "hasNextPage pageResult = (nextToken pageResult \<noteq> None)"

text \<open>The constructor; \<open>a ?? b\<close> is \<open>b\<close> only when \<open>a\<close> is \<open>undefined\<close>.\<close>

definition constructor :: "'p \<Rightarrow> 'c \<Rightarrow> PagerOptions \<Rightarrow> ('c, 'p) AthenaQueryResultPager" where
  "constructor newParser cl opts =
     \<lparr> client = cl,
       options = \<lparr> maxResults = (case maxResults_opt opts of None \<Rightarrow> DEFAULT_MAX_RESULTS | Some m \<Rightarrow> m),
                   queryResultType = (case queryResultType_opt opts of None \<Rightarrow> DEFAULT_QUERY_RESULT_TYPE | Some q \<Rightarrow> q) \<rparr>,
       parser = newParser \<rparr>"

text \<open>\<open>options: PagerOptions = {}\<close>: the default argument.\<close>

definition no_options :: PagerOptions where
  "no_options = \<lparr> maxResults_opt = None, queryResultType_opt = None \<rparr>"

text \<open>
  \<open>fetchPage\<close>. A rejected \<open>send\<close> or a throwing parser leaves the function at once with
  that error (\<open>Inl\<close>); the pager's state after the call is returned beside the result.
\<close>

definition fetchPage ::
  "('c, 'rs, 'e) send \<Rightarrow> ('p, 'rs, 'e, 'r) parseResultSet \<Rightarrow> ('c, 'p) AthenaQueryResultPager \<Rightarrow>
   string \<Rightarrow> string option \<Rightarrow> ('e + 'r PageResult) \<times> ('c, 'p) AthenaQueryResultPager" where
  "fetchPage sendf prs this queryExecutionId nextTok =
     (let input = \<lparr> QueryExecutionId = queryExecutionId, NextToken = nextTok,
                     MaxResults = Some (maxResults (options this)), QueryResultType = None \<rparr>
      in case sendf (client this) input of
           (Inl e, c') \<Rightarrow> (Inl e, this\<lparr>client := c'\<rparr>)
         | (Inr response, c') \<Rightarrow>
             (case prs (parser this) (ResultSet response) of
                (Inl e, p') \<Rightarrow> (Inl e, this\<lparr>client := c', parser := p'\<rparr>)
              | (Inr rws, p') \<Rightarrow>
                  (Inr \<lparr> rows = rws, nextToken = NextToken_out response, rowCount = length rws \<rparr>,
                   this\<lparr>client := c', parser := p'\<rparr>)))"

definition fetchPageWith ::
  "('c, 'rs, 'e) send \<Rightarrow> ('p, 'rs, 'e, 'r, 't) parseResultSetWith \<Rightarrow> ('c, 'p) AthenaQueryResultPager \<Rightarrow>
   string \<Rightarrow> ('r \<Rightarrow> 'e + 't) \<Rightarrow> string option \<Rightarrow> ('e + 't PageResult) \<times> ('c, 'p) AthenaQueryResultPager" where
  "fetchPageWith sendf prsw this queryExecutionId rowParser nextTok =
     (let input = \<lparr> QueryExecutionId = queryExecutionId, NextToken = nextTok,
                     MaxResults = Some (maxResults (options this)), QueryResultType = None \<rparr>
      in case sendf (client this) input of
           (Inl e, c') \<Rightarrow> (Inl e, this\<lparr>client := c'\<rparr>)
         | (Inr response, c') \<Rightarrow>
             (case prsw (parser this) (ResultSet response) rowParser of
                (Inl e, p') \<Rightarrow> (Inl e, this\<lparr>client := c', parser := p'\<rparr>)
              | (Inr rws, p') \<Rightarrow>
                  (Inr \<lparr> rows = rws, nextToken = NextToken_out response, rowCount = length rws \<rparr>,
                   this\<lparr>client := c', parser := p'\<rparr>)))"

text \<open>\<open>reset\<close>: \<open>this.parser = new AthenaQueryResultParser()\<close>.\<close>

definition reset :: "'p \<Rightarrow> ('c, 'p) AthenaQueryResultPager \<Rightarrow> ('c, 'p) AthenaQueryResultPager" where
  "reset newParser this = this\<lparr>parser := newParser\<rparr>"


section \<open>The generators\<close>

text \<open>
  What one \<open>next()\<close> of a generator gives its consumer: a yielded value, the end of the
  sequence, or the error the generator's body threw.
\<close>

datatype ('y, 'e) IteratorResult = Yield 'y | Return | Throw 'e

text \<open>
  Where the body of \<open>iteratePages\<close> / \<open>iteratePagesWith\<close> is suspended: not yet started,
  at \<open>yield page\<close> (the local \<open>page\<close> is what the frame holds), or finished. The consumer
  is taken not to write to the page object it was handed, so the \<open>page.nextToken\<close> read on
  resumption is the one that was yielded.
\<close>

datatype 't PagesFrame = Start | AtYield "'t PageResult" | Completed

text \<open>JavaScript truthiness of a \<open>string | undefined\<close>: \<open>undefined\<close> and \<open>''\<close> are falsy.\<close>

definition truthy :: "string option \<Rightarrow> bool" where
  "truthy tok = (case tok of None \<Rightarrow> False | Some s \<Rightarrow> s \<noteq> [])"

text \<open>
  The loop body up to the \<open>yield\<close>: \<open>const page = await this.fetchPage(..); yield page\<close>.
  An error of \<open>fetchPage\<close> is thrown out of the generator, which is then finished. The
  \<open>yield\<close> awaits \<open>page\<close>, which is the object literal \<open>fetchPage\<close> built (\<open>rows\<close>, \<open>nextToken\<close>,
  \<open>rowCount\<close>) and no thenable: it is yielded as it is.
\<close>

definition iteratePages_body ::
  "('c, 'rs, 'e) send \<Rightarrow> ('p, 'rs, 'e, 'r) parseResultSet \<Rightarrow> string \<Rightarrow> string option \<Rightarrow>
   ('c, 'p) AthenaQueryResultPager \<Rightarrow>
   ('r PageResult, 'e) IteratorResult \<times> 'r PagesFrame \<times> ('c, 'p) AthenaQueryResultPager" where
  "iteratePages_body sendf prs queryExecutionId nextTok this =
     (case fetchPage sendf prs this queryExecutionId nextTok of
        (Inl e, this') \<Rightarrow> (Throw e, Completed, this')
      | (Inr page, this') \<Rightarrow> (Yield page, AtYield page, this'))"

text \<open>
  One \<open>next()\<close> of \<open>iteratePages\<close>. From \<open>Start\<close> the body runs with \<open>nextToken\<close> undefined.
  From \<open>yield page\<close> it resumes with \<open>nextToken = page.nextToken\<close> and the test
  \<open>while (nextToken)\<close>.
\<close>

definition iteratePages_next ::
  "('c, 'rs, 'e) send \<Rightarrow> ('p, 'rs, 'e, 'r) parseResultSet \<Rightarrow> string \<Rightarrow>
   'r PagesFrame \<Rightarrow> ('c, 'p) AthenaQueryResultPager \<Rightarrow>
   ('r PageResult, 'e) IteratorResult \<times> 'r PagesFrame \<times> ('c, 'p) AthenaQueryResultPager" where
  "iteratePages_next sendf prs queryExecutionId frame this =
     (case frame of
        Start \<Rightarrow> iteratePages_body sendf prs queryExecutionId None this
      | AtYield page \<Rightarrow>
          (let nextTok = nextToken page
           in if truthy nextTok then iteratePages_body sendf prs queryExecutionId nextTok this
              else (Return, Completed, this))
      | Completed \<Rightarrow> (Return, Completed, this))"

definition iteratePagesWith_body ::
  "('c, 'rs, 'e) send \<Rightarrow> ('p, 'rs, 'e, 'r, 't) parseResultSetWith \<Rightarrow> string \<Rightarrow> ('r \<Rightarrow> 'e + 't) \<Rightarrow>
   string option \<Rightarrow> ('c, 'p) AthenaQueryResultPager \<Rightarrow>
   ('t PageResult, 'e) IteratorResult \<times> 't PagesFrame \<times> ('c, 'p) AthenaQueryResultPager" where
  "iteratePagesWith_body sendf prsw queryExecutionId rowParser nextTok this =
     (case fetchPageWith sendf prsw this queryExecutionId rowParser nextTok of
        (Inl e, this') \<Rightarrow> (Throw e, Completed, this')
      | (Inr page, this') \<Rightarrow> (Yield page, AtYield page, this'))"

definition iteratePagesWith_next ::
  "('c, 'rs, 'e) send \<Rightarrow> ('p, 'rs, 'e, 'r, 't) parseResultSetWith \<Rightarrow> string \<Rightarrow> ('r \<Rightarrow> 'e + 't) \<Rightarrow>
   't PagesFrame \<Rightarrow> ('c, 'p) AthenaQueryResultPager \<Rightarrow>
   ('t PageResult, 'e) IteratorResult \<times> 't PagesFrame \<times> ('c, 'p) AthenaQueryResultPager" where
  "iteratePagesWith_next sendf prsw queryExecutionId rowParser frame this =
     (case frame of
        Start \<Rightarrow> iteratePagesWith_body sendf prsw queryExecutionId rowParser None this
      | AtYield page \<Rightarrow>
          (let nextTok = nextToken page
           in if truthy nextTok then iteratePagesWith_body sendf prsw queryExecutionId rowParser nextTok this
              else (Return, Completed, this))
      | Completed \<Rightarrow> (Return, Completed, this))"

text \<open>
  \<open>await v\<close> on a value of type \<open>'t\<close>, a parameter \<open>awaitRow\<close> of the row generator: the
  value awaited to (\<open>Inr\<close>), the reason it rejects with (\<open>Inl\<close>), or \<open>None\<close> when it never
  settles. A value that is not a thenable is awaited to itself.
\<close>

type_synonym ('t, 'e, 'u) await = "'t \<Rightarrow> ('e + 'u) option"

definition await_value :: "('t, 'e, 't) await" where
  "await_value v = Some (Inr v)"

text \<open>A value that is a promise, as an \<open>async\<close> row parser returns, and \<open>await\<close> on it.\<close>

datatype ('e, 'a) Promise = Fulfilled 'a | Rejected 'e | Pending

fun await_Promise :: "(('e, 'a) Promise, 'e, 'a) await" where
  "await_Promise (Fulfilled v) = Some (Inr v)"
| "await_Promise (Rejected e) = Some (Inl e)"
| "await_Promise Pending = None"

text \<open>
  \<open>iterateRows\<close>: the frame holds the inner \<open>iteratePagesWith\<close> generator and the rows of
  the current page that \<open>for (const row of page.rows)\<close> has not reached yet. A \<open>next()\<close>
  takes the next such row; \<open>yield row\<close> in an \<open>async\<close> generator awaits its operand, so what
  is yielded is the value the row is awaited to, a row that rejects is thrown at the
  \<open>yield\<close> and finishes the generator (the \<open>for await\<close> it leaves closes the inner one), and
  a row that never settles leaves \<open>next()\<close> without a result. When no row is left it pulls
  the inner generator, and goes on pulling while pages come back empty, so it may not
  return either: \<open>None\<close>.
\<close>

datatype 't RowsFrame = InPage "'t PagesFrame" "'t list" | RowsCompleted

partial_function (option) iterateRows_next ::
  "('c, 'rs, 'e) send \<Rightarrow> ('p, 'rs, 'e, 'r, 't) parseResultSetWith \<Rightarrow> ('t, 'e, 'u) await \<Rightarrow>
   string \<Rightarrow> ('r \<Rightarrow> 'e + 't) \<Rightarrow> 't RowsFrame \<Rightarrow> ('c, 'p) AthenaQueryResultPager \<Rightarrow>
   (('u, 'e) IteratorResult \<times> 't RowsFrame \<times> ('c, 'p) AthenaQueryResultPager) option" where
  "iterateRows_next sendf prsw awaitRow queryExecutionId rowParser frame this =
     (case frame of
        RowsCompleted \<Rightarrow> Some (Return, RowsCompleted, this)
      | InPage inner (row # rest) \<Rightarrow>
          (case awaitRow row of
             None \<Rightarrow> None
           | Some (Inl e) \<Rightarrow> Some (Throw e, RowsCompleted, this)
           | Some (Inr v) \<Rightarrow> Some (Yield v, InPage inner rest, this))
      | InPage inner [] \<Rightarrow>
          (case iteratePagesWith_next sendf prsw queryExecutionId rowParser inner this of
             (Return, inner', this') \<Rightarrow> Some (Return, RowsCompleted, this')
           | (Throw e, inner', this') \<Rightarrow> Some (Throw e, RowsCompleted, this')
           | (Yield page, inner', this') \<Rightarrow>
               iterateRows_next sendf prsw awaitRow queryExecutionId rowParser
                 (InPage inner' (rows page)) this'))"

declare iterateRows_next.simps [code]

text \<open>
  The consumer \<open>for await (const y of gen) { .. }\<close> that runs to the end: it calls \<open>next()\<close>
  until the generator returns or throws. The result is every yielded value with the
  pager's state at that \<open>yield\<close> (what the loop body can observe), the error that ended
  the loop if one did, and the pager's last state. \<open>None\<close>: the loop never ends.
\<close>

partial_function (option) for_await ::
  "('f \<Rightarrow> 's \<Rightarrow> (('y, 'e) IteratorResult \<times> 'f \<times> 's) option) \<Rightarrow> 'f \<Rightarrow> 's \<Rightarrow>
   (('y \<times> 's) list \<times> 'e option \<times> 's) option" where
  "for_await nxt frame s =
     (case nxt frame s of
        None \<Rightarrow> None
      | Some (Return, frame', s') \<Rightarrow> Some ([], None, s')
      | Some (Throw e, frame', s') \<Rightarrow> Some ([], Some e, s')
      | Some (Yield y, frame', s') \<Rightarrow>
          Option.bind (for_await nxt frame' s')
            (\<lambda>(ys, err, s''). Some ((y, s') # ys, err, s'')))"


declare for_await.simps [code]

text \<open>The two page generators run to the end by such a consumer, and the row generator.\<close>

definition iteratePages ::
  "('c, 'rs, 'e) send \<Rightarrow> ('p, 'rs, 'e, 'r) parseResultSet \<Rightarrow> ('c, 'p) AthenaQueryResultPager \<Rightarrow> string \<Rightarrow>
   (('r PageResult \<times> ('c, 'p) AthenaQueryResultPager) list \<times> 'e option \<times> ('c, 'p) AthenaQueryResultPager) option" where
  "iteratePages sendf prs this queryExecutionId =
     for_await (\<lambda>frame s. Some (iteratePages_next sendf prs queryExecutionId frame s)) Start this"

definition iteratePagesWith ::
  "('c, 'rs, 'e) send \<Rightarrow> ('p, 'rs, 'e, 'r, 't) parseResultSetWith \<Rightarrow> ('c, 'p) AthenaQueryResultPager \<Rightarrow>
   string \<Rightarrow> ('r \<Rightarrow> 'e + 't) \<Rightarrow>
   (('t PageResult \<times> ('c, 'p) AthenaQueryResultPager) list \<times> 'e option \<times> ('c, 'p) AthenaQueryResultPager) option" where
  "iteratePagesWith sendf prsw this queryExecutionId rowParser =
     for_await (\<lambda>frame s. Some (iteratePagesWith_next sendf prsw queryExecutionId rowParser frame s)) Start this"

definition iterateRows ::
  "('c, 'rs, 'e) send \<Rightarrow> ('p, 'rs, 'e, 'r, 't) parseResultSetWith \<Rightarrow> ('t, 'e, 'u) await \<Rightarrow>
   ('c, 'p) AthenaQueryResultPager \<Rightarrow> string \<Rightarrow> ('r \<Rightarrow> 'e + 't) \<Rightarrow>
   (('u \<times> ('c, 'p) AthenaQueryResultPager) list \<times> 'e option \<times> ('c, 'p) AthenaQueryResultPager) option" where
  "iterateRows sendf prsw awaitRow this queryExecutionId rowParser =
     for_await (iterateRows_next sendf prsw awaitRow queryExecutionId rowParser) (InPage Start []) this"

section \<open>Clients and a parser to run the pager on\<close>

text \<open>
  A client that records every request before passing it on, as the \<open>jest.fn\<close> of the
  tests does in \<open>send.mock.calls\<close>.
\<close>

definition spy :: "('c, 'rs, 'e) send \<Rightarrow> (GetQueryResultsCommandInput list \<times> 'c, 'rs, 'e) send" where
  "spy sendf = (\<lambda>(calls, c) input.
     case sendf c input of (res, c') \<Rightarrow> (res, (calls @ [input], c')))"

text \<open>
  A client that answers from a script, one entry per call in order, whatever the request
  (as \<open>createMockSend\<close> of the tests answers by \<open>callIndex\<close>); past the script it answers
  \<open>fallback\<close>. Its state is what is left of the script.
\<close>

definition scripted ::
  "('e + 'rs GetQueryResultsCommandOutput) \<Rightarrow>
   (('e + 'rs GetQueryResultsCommandOutput) list, 'rs, 'e) send" where
  "scripted fallback script input =
     (case script of [] \<Rightarrow> (fallback, []) | res # script' \<Rightarrow> (res, script'))"

text \<open>
  Modelled from the spec: the SDK's \<open>ResultSet\<close>, the tabular payload of a response,
  "columns: [{name, type}], rows: [{cells: [stringOrAbsent...]}]": the column names and
  the rows of cells, a cell being a string or absent.
\<close>

record ResultSet =
  ColumnInfo :: "string list"
  Rows :: "string option list list"

text \<open>A raw row: column name to cell, in column order.\<close>

type_synonym ParsedRow = "(string \<times> string option) list"

text \<open>
  Modelled from the spec: the class \<open>AthenaQueryResultParser\<close> of the package
  \<open>athena-query-result-parser\<close>, which is not part of this repository's sources. The
  spec says of it: it "converts one page's tabular payload into a sequence of row
  objects" (column name to string value, or null for a missing cell), it "internally
  tracks whether it has already consumed a header/column-metadata row", both methods
  "skip the header row once per instance", and with a custom row parser that one "is
  invoked once per row in page order; exceptions raised by rowParser propagate".
  The state is the header-seen flag.
\<close>

record AthenaQueryResultParser =
  headerSeen :: bool

text \<open>Modelled from the spec: a "freshly initialized" parser, "header-seen flag cleared".\<close>

definition new_AthenaQueryResultParser :: AthenaQueryResultParser where
  "new_AthenaQueryResultParser = \<lparr> headerSeen = False \<rparr>"

text \<open>
  Modelled from the spec: a raw row object, a "mapping of column name \<rightarrow> string value, or
  null/absent for missing cells".
\<close>

definition toParsedRow :: "string list \<Rightarrow> string option list \<Rightarrow> ParsedRow" where
  "toParsedRow cols cells =
     map (\<lambda>i. (cols ! i, if i < length cells then cells ! i else None)) [0..<length cols]"

text \<open>
  Modelled from the spec: a header row is one "whose cell values equal the column names".
\<close>

definition isHeaderRow :: "string list \<Rightarrow> string option list \<Rightarrow> bool" where
  "isHeaderRow cols cells = (cells = map Some cols)"

text \<open>
  Modelled from the spec: \<open>parseResultSet(resultSet)\<close>, which "returns raw row objects" and
  is "responsible for recognizing and skipping exactly one such header row per
  parser-instance lifetime": while the flag is clear, a first row that is a header row
  is skipped and the flag is set; every other row is data, and a result set without a
  header row leaves the flag as it is.
\<close>

definition parseResultSet ::
  "(AthenaQueryResultParser, ResultSet, 'e, ParsedRow) parseResultSet" where
  "parseResultSet p resultSet =
     (case resultSet of
        None \<Rightarrow> (Inr [], p)
      | Some rs \<Rightarrow>
          (case Rows rs of
             [] \<Rightarrow> (Inr [], p)
           | first # rest \<Rightarrow>
               if \<not> headerSeen p \<and> isHeaderRow (ColumnInfo rs) first
               then (Inr (map (toParsedRow (ColumnInfo rs)) rest), p\<lparr>headerSeen := True\<rparr>)
               else (Inr (map (toParsedRow (ColumnInfo rs)) (first # rest)), p)))"

text \<open>
  Modelled from the spec: the row parser "is invoked once per row in page order;
  exceptions raised by rowParser propagate uncaught".
\<close>

fun mapRows :: "('r \<Rightarrow> 'e + 't) \<Rightarrow> 'r list \<Rightarrow> 'e + 't list" where
  "mapRows rowParser [] = Inr []"
| "mapRows rowParser (row # rest) =
     (case rowParser row of
        Inl e \<Rightarrow> Inl e
      | Inr t \<Rightarrow> (case mapRows rowParser rest of Inl e \<Rightarrow> Inl e | Inr ts \<Rightarrow> Inr (t # ts)))"

text \<open>
  Modelled from the spec: \<open>parseResultSetWith(resultSet, rowParser)\<close>, the same with each raw
  row converted by the caller's row parser.
\<close>

definition parseResultSetWith ::
  "(AthenaQueryResultParser, ResultSet, 'e, ParsedRow, 't) parseResultSetWith" where
  "parseResultSetWith p resultSet rowParser =
     (case parseResultSet p resultSet of
        (Inl e, p') \<Rightarrow> (Inl e, p')
      | (Inr raw, p') \<Rightarrow> (mapRows rowParser raw, p'))"


text \<open>
  A concrete run, after the test "yields each row from all pages": two pages with row
  counts 2 and 1, the header row on the first page only, served by a recording client
  that answers an empty last page once the script is used up.
\<close>

definition empty_response :: "ResultSet GetQueryResultsCommandOutput" where
  "empty_response = \<lparr> ResultSet = Some \<lparr> ColumnInfo = [], Rows = [] \<rparr>, NextToken_out = None \<rparr>"

definition example_script :: "(string + ResultSet GetQueryResultsCommandOutput) list" where
  "example_script =
     [Inr \<lparr> ResultSet = Some \<lparr> ColumnInfo = [''id''], Rows = [[Some ''id''], [Some ''1''], [Some ''2'']] \<rparr>,
            NextToken_out = Some ''t2'' \<rparr>,
      Inr \<lparr> ResultSet = Some \<lparr> ColumnInfo = [''id''], Rows = [[Some ''3'']] \<rparr>,
            NextToken_out = None \<rparr>]"

definition example_send ::
  "(GetQueryResultsCommandInput list \<times> (string + ResultSet GetQueryResultsCommandOutput) list, ResultSet, string) send" where
  "example_send = spy (scripted (Inr empty_response))"

text \<open>\<open>new AthenaQueryResultPager(client)\<close> on a client that has such a script and no call yet.\<close>

definition pager_on ::
  "(string + ResultSet GetQueryResultsCommandOutput) list \<Rightarrow>
   (GetQueryResultsCommandInput list \<times> (string + ResultSet GetQueryResultsCommandOutput) list,
    AthenaQueryResultParser) AthenaQueryResultPager" where
  "pager_on script = constructor new_AthenaQueryResultParser ([], script) no_options"

definition example_pager ::
  "(GetQueryResultsCommandInput list \<times> (string + ResultSet GetQueryResultsCommandOutput) list,
    AthenaQueryResultParser) AthenaQueryResultPager" where
  "example_pager = pager_on example_script"

text \<open>\<open>new AthenaQueryResultPager(client, options)\<close> on the client of that run.\<close>

definition example_pager_with ::
  "PagerOptions \<Rightarrow>
   (GetQueryResultsCommandInput list \<times> (string + ResultSet GetQueryResultsCommandOutput) list,
    AthenaQueryResultParser) AthenaQueryResultPager" where
  "example_pager_with opts = constructor new_AthenaQueryResultParser ([], example_script) opts"

text \<open>The row parser of that test: \<open>(row) => ({ id: String(row.id ?? '') })\<close>.\<close>

definition example_rowParser :: "ParsedRow \<Rightarrow> string + string" where
  "example_rowParser row = Inr (case map_of row ''id'' of Some (Some v) \<Rightarrow> v | _ \<Rightarrow> [])"

text \<open>
  Scripts in which a page carries the empty string as its token: the first of two pages,
  and the second of three.
\<close>

definition empty_token_script :: "(string + ResultSet GetQueryResultsCommandOutput) list" where
  "empty_token_script =
     [Inr \<lparr> ResultSet = Some \<lparr> ColumnInfo = [''x''], Rows = [[Some ''x''], [Some ''1'']] \<rparr>,
            NextToken_out = Some [] \<rparr>,
      Inr \<lparr> ResultSet = Some \<lparr> ColumnInfo = [''x''], Rows = [[Some ''2'']] \<rparr>,
            NextToken_out = None \<rparr>]"

definition empty_token_script3 :: "(string + ResultSet GetQueryResultsCommandOutput) list" where
  "empty_token_script3 =
     [Inr \<lparr> ResultSet = Some \<lparr> ColumnInfo = [''x''], Rows = [[Some ''x''], [Some ''1'']] \<rparr>,
            NextToken_out = Some ''t2'' \<rparr>,
      Inr \<lparr> ResultSet = Some \<lparr> ColumnInfo = [''x''], Rows = [[Some ''2'']] \<rparr>,
            NextToken_out = Some [] \<rparr>,
      Inr \<lparr> ResultSet = Some \<lparr> ColumnInfo = [''x''], Rows = [[Some ''3'']] \<rparr>,
            NextToken_out = None \<rparr>]"

text \<open>A script whose second call is rejected by the service, and a row parser that throws.\<close>

definition failing_script :: "(string + ResultSet GetQueryResultsCommandOutput) list" where
  "failing_script =
     [Inr \<lparr> ResultSet = Some \<lparr> ColumnInfo = [''x''], Rows = [[Some ''x''], [Some ''1'']] \<rparr>,
            NextToken_out = Some ''t2'' \<rparr>,
      Inl ''ThrottlingException'',
      Inr \<lparr> ResultSet = Some \<lparr> ColumnInfo = [''x''], Rows = [[Some ''3'']] \<rparr>,
            NextToken_out = None \<rparr>]"

definition throwing_rowParser :: "ParsedRow \<Rightarrow> string + string" where
  "throwing_rowParser row = Inl ''bad row''"

text \<open>
  Two queries as the service answers them, each by one page that starts with the query's
  header row and has one data row.
\<close>

definition two_queries_script :: "(string + ResultSet GetQueryResultsCommandOutput) list" where
  "two_queries_script =
     [Inr \<lparr> ResultSet = Some \<lparr> ColumnInfo = [''a''], Rows = [[Some ''a''], [Some ''1'']] \<rparr>,
            NextToken_out = None \<rparr>,
      Inr \<lparr> ResultSet = Some \<lparr> ColumnInfo = [''b''], Rows = [[Some ''b''], [Some ''2'']] \<rparr>,
            NextToken_out = None \<rparr>]"

text \<open>
  The script of the test "recreates parser instance": \<open>createMockSend\<close> gives the header
  row on its first call only, so the answer to the second query has the data row alone.
\<close>

definition reset_test_script :: "(string + ResultSet GetQueryResultsCommandOutput) list" where
  "reset_test_script =
     [Inr \<lparr> ResultSet = Some \<lparr> ColumnInfo = [''a''], Rows = [[Some ''a''], [Some ''1'']] \<rparr>,
            NextToken_out = None \<rparr>,
      Inr \<lparr> ResultSet = Some \<lparr> ColumnInfo = [''b''], Rows = [[Some ''2'']] \<rparr>,
            NextToken_out = None \<rparr>]"

text \<open>
  An \<open>async\<close> row parser, \<open>async (row) => { if (row.id === '2') throw 'bad id'; return row.id }\<close>:
  it returns a promise for every row and never throws itself.
\<close>

definition async_rowParser :: "ParsedRow \<Rightarrow> string + (string, string) Promise" where
  "async_rowParser row =
     Inr (case map_of row ''id'' of
            Some (Some v) \<Rightarrow> if v = ''2'' then Rejected ''bad id'' else Fulfilled v
          | _ \<Rightarrow> Fulfilled [])"

section \<open>Notions used in the statements and proofs\<close>

text \<open>
  Pagination by hand, in continuation order: \<open>fetchPage\<close>, called first with the token
  \<open>tok\<close> and then with the token of the page before, returns the listed pages one after
  the other, each with the pager's state after that call.
\<close>

fun served_in_order ::
  "('c, 'rs, 'e) send \<Rightarrow> ('p, 'rs, 'e, 'r) parseResultSet \<Rightarrow> string \<Rightarrow> ('c, 'p) AthenaQueryResultPager \<Rightarrow>
   string option \<Rightarrow> ('r PageResult \<times> ('c, 'p) AthenaQueryResultPager) list \<Rightarrow> bool" where
  "served_in_order sendf prs q this tok [] = True"
| "served_in_order sendf prs q this tok ((page, this') # later) =
     (fetchPage sendf prs this q tok = (Inr page, this') \<and>
      served_in_order sendf prs q this' (nextToken page) later)"

text \<open>The requests that carry the given tokens, as \<open>fetchPage\<close> builds them.\<close>

definition requests :: "RequiredPagerOptions \<Rightarrow> string \<Rightarrow> string option list \<Rightarrow> GetQueryResultsCommandInput list" where
  "requests opts q toks =
     map (\<lambda>tok. \<lparr> QueryExecutionId = q, NextToken = tok,
                   MaxResults = Some (maxResults opts), QueryResultType = None \<rparr>) toks"

text \<open>The rows of a yielded page, each with the pager's state at that page's \<open>yield\<close>.\<close>

definition rows_of_page :: "'t PageResult \<times> 's \<Rightarrow> ('t \<times> 's) list" where
  "rows_of_page = (\<lambda>(page, s). map (\<lambda>row. (row, s)) (rows page))"

text \<open>
  What one \<open>next()\<close> of \<open>iterateRows\<close> on rows that are no thenables, from the frame
  \<open>InPage f rest0\<close> in state \<open>s0\<close>, means
  for the inner page generator \<open>f\<close>: a return or a throw when no row is left and the pages
  from \<open>f\<close> on are all empty up to that end; a yielded row when every run of the pages from
  the new frame extends to a run from \<open>f\<close> whose rows are that row and the rest.
\<close>

definition rows_step_ok ::
  "('c, 'rs, 'e) send \<Rightarrow> ('p, 'rs, 'e, 'r, 't) parseResultSetWith \<Rightarrow> string \<Rightarrow> ('r \<Rightarrow> 'e + 't) \<Rightarrow>
   't PagesFrame \<Rightarrow> 't list \<Rightarrow> ('c, 'p) AthenaQueryResultPager \<Rightarrow>
   (('t, 'e) IteratorResult \<times> 't RowsFrame \<times> ('c, 'p) AthenaQueryResultPager) \<Rightarrow> bool" where
  "rows_step_ok sendf prsw q rp f rest0 s0 res =
     (case res of
        (Return, F1, s1) \<Rightarrow> rest0 = [] \<and>
          (\<exists>ps. for_await (\<lambda>f s. Some (iteratePagesWith_next sendf prsw q rp f s)) f s0 = Some (ps, None, s1) \<and>
                concat (map rows_of_page ps) = [])
      | (Throw e, F1, s1) \<Rightarrow> rest0 = [] \<and>
          (\<exists>ps. for_await (\<lambda>f s. Some (iteratePagesWith_next sendf prsw q rp f s)) f s0 = Some (ps, Some e, s1) \<and>
                concat (map rows_of_page ps) = [])
      | (Yield row, F1, s1) \<Rightarrow>
          (\<exists>f1 rest1. F1 = InPage f1 rest1 \<and>
             (\<forall>ps' err s'.
                for_await (\<lambda>f s. Some (iteratePagesWith_next sendf prsw q rp f s)) f1 s1 = Some (ps', err, s') \<longrightarrow>
                (\<exists>ps. for_await (\<lambda>f s. Some (iteratePagesWith_next sendf prsw q rp f s)) f s0 = Some (ps, err, s') \<and>
                   map (\<lambda>x. (x, s0)) rest0 @ concat (map rows_of_page ps) =
                     (row, s1) # map (\<lambda>x. (x, s1)) rest1 @ concat (map rows_of_page ps')))))"

section \<open>Helper lemmas\<close>

lemmas for_await_induct = for_await.raw_induct [rotated 1, consumes 1, case_names step]

lemma for_await_yields:
  assumes "for_await nxt frame s = Some res"
    and "\<And>f s y f' s'. nxt f s = Some (Yield y, f', s') \<Longrightarrow> P y"
  shows "\<forall>(y, s') \<in> set (fst res). P y"
  using assms
proof (induction nxt frame s res rule: for_await_induct)
  case (step for_await' nxt frame s res)
  show ?case
  proof (cases "nxt frame s")
    case None
    with step(2) show ?thesis by simp
  next
    case (Some a)
    obtain r f' s' where a: "a = (r, f', s')" by (cases a)
    show ?thesis
    proof (cases r)
      case (Yield y)
      with step(2) Some a obtain ys err s'' where
        rec: "for_await' nxt f' s' = Some (ys, err, s'')" and res: "res = ((y, s') # ys, err, s'')"
        by (auto simp: bind_eq_Some_conv)
      have "P y" using step(3) Some a Yield by blast
      moreover have "\<forall>(y, s') \<in> set (fst (ys, err, s'')). P y"
        using step(1)[OF rec] step(3) by blast
      ultimately show ?thesis using res by auto
    next
      case Return
      with step(2) Some a show ?thesis by auto
    next
      case (Throw e)
      with step(2) Some a show ?thesis by auto
    qed
  qed
qed

lemma fetchPage_rowCount:
  "fetchPage sendf prs this q tok = (Inr page, this') \<Longrightarrow> rowCount page = length (rows page)"
  by (auto simp: fetchPage_def Let_def split: prod.splits sum.splits)

lemma fetchPageWith_rowCount:
  "fetchPageWith sendf prsw this q rp tok = (Inr page, this') \<Longrightarrow> rowCount page = length (rows page)"
  by (auto simp: fetchPageWith_def Let_def split: prod.splits sum.splits)

lemma iteratePages_next_rowCount:
  "iteratePages_next sendf prs q frame this = (Yield page, frame', this') \<Longrightarrow>
   rowCount page = length (rows page)"
  by (auto simp: iteratePages_next_def iteratePages_body_def Let_def
      split: PagesFrame.splits prod.splits sum.splits if_splits dest: fetchPage_rowCount)

lemma iteratePagesWith_next_rowCount:
  "iteratePagesWith_next sendf prsw q rp frame this = (Yield page, frame', this') \<Longrightarrow>
   rowCount page = length (rows page)"
  by (auto simp: iteratePagesWith_next_def iteratePagesWith_body_def Let_def
      split: PagesFrame.splits prod.splits sum.splits if_splits dest: fetchPageWith_rowCount)

lemma for_await_total:
  "for_await (\<lambda>f s. Some (g f s)) frame s =
     (case g frame s of
        (Return, frame', s') \<Rightarrow> Some ([], None, s')
      | (Throw e, frame', s') \<Rightarrow> Some ([], Some e, s')
      | (Yield y, frame', s') \<Rightarrow>
          Option.bind (for_await (\<lambda>f s. Some (g f s)) frame' s')
            (\<lambda>(ys, err, s''). Some ((y, s') # ys, err, s'')))"
  by (subst for_await.simps) simp

lemma pages_run_falsy:
  "\<not> truthy (nextToken page) \<Longrightarrow>
   for_await (\<lambda>f s. Some (iteratePages_next sendf prs q f s)) (AtYield page) this = Some ([], None, this)"
  by (subst for_await_total) (simp add: iteratePages_next_def)

lemma pagesWith_run_falsy:
  "\<not> truthy (nextToken page) \<Longrightarrow>
   for_await (\<lambda>f s. Some (iteratePagesWith_next sendf prsw q rp f s)) (AtYield page) this = Some ([], None, this)"
  by (subst for_await_total) (simp add: iteratePagesWith_next_def)

lemma iteratePages_first:
  "iteratePages sendf prs this q =
     (case fetchPage sendf prs this q None of
        (Inl e, this') \<Rightarrow> Some ([], Some e, this')
      | (Inr page, this') \<Rightarrow>
          Option.bind (for_await (\<lambda>f s. Some (iteratePages_next sendf prs q f s)) (AtYield page) this')
            (\<lambda>(ys, err, s''). Some ((page, this') # ys, err, s'')))"
  unfolding iteratePages_def
  by (subst for_await_total) (simp add: iteratePages_next_def iteratePages_body_def split: prod.splits sum.splits)

lemma iteratePagesWith_first:
  "iteratePagesWith sendf prsw this q rp =
     (case fetchPageWith sendf prsw this q rp None of
        (Inl e, this') \<Rightarrow> Some ([], Some e, this')
      | (Inr page, this') \<Rightarrow>
          Option.bind (for_await (\<lambda>f s. Some (iteratePagesWith_next sendf prsw q rp f s)) (AtYield page) this')
            (\<lambda>(ys, err, s''). Some ((page, this') # ys, err, s'')))"
  unfolding iteratePagesWith_def
  by (subst for_await_total) (simp add: iteratePagesWith_next_def iteratePagesWith_body_def split: prod.splits sum.splits)

lemma fetchPage_ignores_queryResultType:
  assumes "client this2 = client this1" "parser this2 = parser this1"
    "maxResults (options this2) = maxResults (options this1)"
  shows "fst (fetchPage sendf prs this2 q tok) = fst (fetchPage sendf prs this1 q tok) \<and>
         client (snd (fetchPage sendf prs this2 q tok)) = client (snd (fetchPage sendf prs this1 q tok)) \<and>
         parser (snd (fetchPage sendf prs this2 q tok)) = parser (snd (fetchPage sendf prs this1 q tok))"
  using assms by (simp add: fetchPage_def split: prod.splits sum.splits)

lemma fetchPageWith_ignores_queryResultType:
  assumes "client this2 = client this1" "parser this2 = parser this1"
    "maxResults (options this2) = maxResults (options this1)"
  shows "fst (fetchPageWith sendf prsw this2 q rp tok) = fst (fetchPageWith sendf prsw this1 q rp tok) \<and>
         client (snd (fetchPageWith sendf prsw this2 q rp tok)) = client (snd (fetchPageWith sendf prsw this1 q rp tok)) \<and>
         parser (snd (fetchPageWith sendf prsw this2 q rp tok)) = parser (snd (fetchPageWith sendf prsw this1 q rp tok))"
  using assms by (simp add: fetchPageWith_def split: prod.splits sum.splits)

lemma fetchPage_request:
  "fst (client (snd (fetchPage (spy sendf) prs this q tok))) =
     fst (client this) @ [\<lparr> QueryExecutionId = q, NextToken = tok,
                            MaxResults = Some (maxResults (options this)), QueryResultType = None \<rparr>]"
  by (simp add: fetchPage_def spy_def split: prod.splits sum.splits)

lemma fetchPageWith_request:
  "fst (client (snd (fetchPageWith (spy sendf) prsw this q rp tok))) =
     fst (client this) @ [\<lparr> QueryExecutionId = q, NextToken = tok,
                            MaxResults = Some (maxResults (options this)), QueryResultType = None \<rparr>]"
  by (simp add: fetchPageWith_def spy_def split: prod.splits sum.splits)

lemma fetchPage_options:
  "options (snd (fetchPage sendf prs this q tok)) = options this"
  by (simp add: fetchPage_def split: prod.splits sum.splits)

lemma fetchPageWith_options:
  "options (snd (fetchPageWith sendf prsw this q rp tok)) = options this"
  by (simp add: fetchPageWith_def split: prod.splits sum.splits)

lemma fetchPage_error_iff:
  "fetchPage sendf prs this q tok = (Inl e, this') \<longleftrightarrow>
     (\<exists>c'. sendf (client this) \<lparr> QueryExecutionId = q, NextToken = tok,
                 MaxResults = Some (maxResults (options this)), QueryResultType = None \<rparr> = (Inl e, c') \<and>
           this' = this\<lparr>client := c'\<rparr>) \<or>
     (\<exists>resp c' p'. sendf (client this) \<lparr> QueryExecutionId = q, NextToken = tok,
                 MaxResults = Some (maxResults (options this)), QueryResultType = None \<rparr> = (Inr resp, c') \<and>
           prs (parser this) (ResultSet resp) = (Inl e, p') \<and>
           this' = this\<lparr>client := c', parser := p'\<rparr>)"
  by (auto simp: fetchPage_def split: prod.splits sum.splits)

lemma fetchPageWith_error_iff:
  "fetchPageWith sendf prsw this q rp tok = (Inl e, this') \<longleftrightarrow>
     (\<exists>c'. sendf (client this) \<lparr> QueryExecutionId = q, NextToken = tok,
                 MaxResults = Some (maxResults (options this)), QueryResultType = None \<rparr> = (Inl e, c') \<and>
           this' = this\<lparr>client := c'\<rparr>) \<or>
     (\<exists>resp c' p'. sendf (client this) \<lparr> QueryExecutionId = q, NextToken = tok,
                 MaxResults = Some (maxResults (options this)), QueryResultType = None \<rparr> = (Inr resp, c') \<and>
           prsw (parser this) (ResultSet resp) rp = (Inl e, p') \<and>
           this' = this\<lparr>client := c', parser := p'\<rparr>)"
  by (auto simp: fetchPageWith_def split: prod.splits sum.splits)

lemma iteratePages_next_Throw:
  "iteratePages_next sendf prs q frame this = (Throw e, frame', this') \<longleftrightarrow>
     frame' = Completed \<and>
     ((frame = Start \<and> fetchPage sendf prs this q None = (Inl e, this')) \<or>
      (\<exists>page. frame = AtYield page \<and> truthy (nextToken page) \<and>
         fetchPage sendf prs this q (nextToken page) = (Inl e, this')))"
  by (cases frame)
    (auto simp: iteratePages_next_def iteratePages_body_def Let_def split: prod.splits sum.splits if_splits)

lemma iteratePagesWith_next_Throw:
  "iteratePagesWith_next sendf prsw q rp frame this = (Throw e, frame', this') \<longleftrightarrow>
     frame' = Completed \<and>
     ((frame = Start \<and> fetchPageWith sendf prsw this q rp None = (Inl e, this')) \<or>
      (\<exists>page. frame = AtYield page \<and> truthy (nextToken page) \<and>
         fetchPageWith sendf prsw this q rp (nextToken page) = (Inl e, this')))"
  by (cases frame)
    (auto simp: iteratePagesWith_next_def iteratePagesWith_body_def Let_def split: prod.splits sum.splits if_splits)

lemma for_await_Throw:
  "g frame this = (Throw e, frame', this') \<Longrightarrow>
   for_await (\<lambda>f s. Some (g f s)) frame this = Some ([], Some e, this')"
  by (subst for_await_total) simp

lemma for_await_cong_step:
  assumes "nxt f s = nxt f' s'"
  shows "for_await nxt f s = for_await nxt f' s'"
proof -
  have "for_await nxt f s =
     (case nxt f s of
        None \<Rightarrow> None
      | Some (Return, frame', s') \<Rightarrow> Some ([], None, s')
      | Some (Throw e, frame', s') \<Rightarrow> Some ([], Some e, s')
      | Some (Yield y, frame', s') \<Rightarrow>
          Option.bind (for_await nxt frame' s')
            (\<lambda>(ys, err, s''). Some ((y, s') # ys, err, s'')))"
    by (rule for_await.simps)
  also have "\<dots> =
     (case nxt f' s' of
        None \<Rightarrow> None
      | Some (Return, frame', s') \<Rightarrow> Some ([], None, s')
      | Some (Throw e, frame', s') \<Rightarrow> Some ([], Some e, s')
      | Some (Yield y, frame', s') \<Rightarrow>
          Option.bind (for_await nxt frame' s')
            (\<lambda>(ys, err, s''). Some ((y, s') # ys, err, s'')))"
    by (simp only: assms)
  also have "\<dots> = for_await nxt f' s'"
    by (rule for_await.simps[symmetric])
  finally show ?thesis .
qed

lemma iterateRows_next_Cons:
  "iterateRows_next sendf prsw await_value q rp (InPage inner (row # rest)) s =
     Some (Yield row, InPage inner rest, s)"
  by (subst iterateRows_next.simps) (simp add: await_value_def)

lemma iterateRows_next_Nil:
  "iterateRows_next sendf prsw aw q rp (InPage inner []) s =
     (case iteratePagesWith_next sendf prsw q rp inner s of
        (Return, inner', s') \<Rightarrow> Some (Return, RowsCompleted, s')
      | (Throw e, inner', s') \<Rightarrow> Some (Throw e, RowsCompleted, s')
      | (Yield page, inner', s') \<Rightarrow> iterateRows_next sendf prsw aw q rp (InPage inner' (rows page)) s')"
  by (subst iterateRows_next.simps) simp

lemma rows_run_Cons:
  "for_await (iterateRows_next sendf prsw await_value q rp) (InPage inner (row # rest)) s =
     Option.bind (for_await (iterateRows_next sendf prsw await_value q rp) (InPage inner rest) s)
       (\<lambda>(ys, err, s'). Some ((row, s) # ys, err, s'))"
  by (subst for_await.simps) (simp add: iterateRows_next_Cons)

lemma rows_run_rest:
  "for_await (iterateRows_next sendf prsw await_value q rp) (InPage inner rest) s =
     Option.bind (for_await (iterateRows_next sendf prsw await_value q rp) (InPage inner []) s)
       (\<lambda>(ys, err, s'). Some (map (\<lambda>row. (row, s)) rest @ ys, err, s'))"
proof (induction rest)
  case Nil
  show ?case by (cases "for_await (iterateRows_next sendf prsw await_value q rp) (InPage inner []) s") auto
next
  case (Cons row rest)
  show ?case
    unfolding rows_run_Cons Cons.IH
    by (cases "for_await (iterateRows_next sendf prsw await_value q rp) (InPage inner []) s") auto
qed

lemma rows_run_Nil:
  "for_await (iterateRows_next sendf prsw await_value q rp) (InPage inner []) s =
     (case iteratePagesWith_next sendf prsw q rp inner s of
        (Return, inner', s') \<Rightarrow> Some ([], None, s')
      | (Throw e, inner', s') \<Rightarrow> Some ([], Some e, s')
      | (Yield page, inner', s') \<Rightarrow>
          for_await (iterateRows_next sendf prsw await_value q rp) (InPage inner' (rows page)) s')"
proof -
  obtain r inner' s' where n: "iteratePagesWith_next sendf prsw q rp inner s = (r, inner', s')"
    by (cases "iteratePagesWith_next sendf prsw q rp inner s")
  show ?thesis
  proof (cases r)
    case (Yield page)
    have "iterateRows_next sendf prsw await_value q rp (InPage inner []) s =
        iterateRows_next sendf prsw await_value q rp (InPage inner' (rows page)) s'"
      by (simp add: iterateRows_next_Nil n Yield)
    then show ?thesis
      using for_await_cong_step[of "iterateRows_next sendf prsw await_value q rp" "InPage inner []" s
          "InPage inner' (rows page)" s']
      by (simp add: n Yield)
  next
    case Return
    then show ?thesis
      by (subst for_await.simps) (simp add: iterateRows_next_Nil n)
  next
    case (Throw e)
    then show ?thesis
      by (subst for_await.simps) (simp add: iterateRows_next_Nil n)
  qed
qed


lemma pages_to_rows:
  assumes "for_await nxt f s = Some res"
    and "nxt = (\<lambda>f s. Some (iteratePagesWith_next sendf prsw q rp f s))"
  shows "for_await (iterateRows_next sendf prsw await_value q rp) (InPage f []) s =
           Some (concat (map rows_of_page (fst res)), snd res)"
  using assms
proof (induction nxt f s res rule: for_await_induct)
  case (step for_await' nxt f s res)
  obtain r f' s1 where n: "iteratePagesWith_next sendf prsw q rp f s = (r, f', s1)"
    by (cases "iteratePagesWith_next sendf prsw q rp f s")
  show ?case
  proof (cases r)
    case (Yield page)
    with step(2,3) n obtain ps err s' where
      rec: "for_await' nxt f' s1 = Some (ps, err, s')" and res: "res = ((page, s1) # ps, err, s')"
      by (auto simp: bind_eq_Some_conv)
    have "for_await (iterateRows_next sendf prsw await_value q rp) (InPage f' []) s1 =
        Some (concat (map rows_of_page ps), err, s')"
      using step(1)[OF rec step(3)] by simp
    then show ?thesis
      by (simp add: rows_run_Nil n Yield rows_run_rest[of _ _ _ _ _ "rows page"] res rows_of_page_def)
  next
    case Return
    with step(2,3) n show ?thesis by (auto simp: rows_run_Nil)
  next
    case (Throw e)
    with step(2,3) n show ?thesis by (auto simp: rows_run_Nil)
  qed
qed


lemmas iterateRows_next_induct = iterateRows_next.raw_induct [rotated 1, consumes 1, case_names step]

lemma pagesWith_run_Yield:
  "iteratePagesWith_next sendf prsw q rp f s = (Yield page, f', s') \<Longrightarrow>
   for_await (\<lambda>f s. Some (iteratePagesWith_next sendf prsw q rp f s)) f' s' = Some (ps, err, s'') \<Longrightarrow>
   for_await (\<lambda>f s. Some (iteratePagesWith_next sendf prsw q rp f s)) f s = Some ((page, s') # ps, err, s'')"
  by (subst for_await_total) simp

lemma pagesWith_run_end:
  "iteratePagesWith_next sendf prsw q rp f s = (Return, f', s') \<Longrightarrow>
   for_await (\<lambda>f s. Some (iteratePagesWith_next sendf prsw q rp f s)) f s = Some ([], None, s')"
  "iteratePagesWith_next sendf prsw q rp f s = (Throw e, f', s') \<Longrightarrow>
   for_await (\<lambda>f s. Some (iteratePagesWith_next sendf prsw q rp f s)) f s = Some ([], Some e, s')"
  by (subst for_await_total, simp)+

lemma rows_next_pages:
  assumes "iterateRows_next sendf prsw aw q rp F0 s0 = Some res"
    and "aw = await_value"
  shows "\<forall>f rest0. F0 = InPage f rest0 \<longrightarrow> rows_step_ok sendf prsw q rp f rest0 s0 res"
  using assms
proof (induction sendf prsw aw q rp F0 s0 res rule: iterateRows_next_induct)
  case (step iterateRows_next' sendf prsw aw q rp F0 s0 res)
  show ?case
  proof (intro allI impI)
    fix f rest0
    assume F0: "F0 = InPage f rest0"
    show "rows_step_ok sendf prsw q rp f rest0 s0 res"
    proof (cases rest0)
      case (Cons row rest')
      with step(2,3) F0 have "res = (Yield row, InPage f rest', s0)" by (simp add: await_value_def)
      then show ?thesis by (simp add: rows_step_ok_def Cons)
    next
      case Nil
      obtain r f' s' where n: "iteratePagesWith_next sendf prsw q rp f s0 = (r, f', s')"
        by (cases "iteratePagesWith_next sendf prsw q rp f s0")
      show ?thesis
      proof (cases r)
        case Return
        with step(2) F0 Nil n have "res = (Return, RowsCompleted, s')" by simp
        then show ?thesis
          using pagesWith_run_end(1)[OF n[unfolded Return]] by (simp add: rows_step_ok_def Nil)
      next
        case (Throw e)
        with step(2) F0 Nil n have "res = (Throw e, RowsCompleted, s')" by simp
        then show ?thesis
          using pagesWith_run_end(2)[OF n[unfolded Throw]] by (simp add: rows_step_ok_def Nil)
      next
        case (Yield page)
        with step(2) F0 Nil n have
          rec: "iterateRows_next' sendf prsw aw q rp (InPage f' (rows page)) s' = Some res" by simp
        have ih: "rows_step_ok sendf prsw q rp f' (rows page) s' res"
          using step(1)[OF rec step(3)] by simp
        note up = pagesWith_run_Yield[OF n[unfolded Yield]]
        obtain r1 F1 s1 where res: "res = (r1, F1, s1)" by (cases res)
        show ?thesis
        proof (cases r1)
          case Return
          with ih res obtain ps where
            "rows page = []"
            "for_await (\<lambda>f s. Some (iteratePagesWith_next sendf prsw q rp f s)) f' s' = Some (ps, None, s1)"
            "concat (map rows_of_page ps) = []"
            by (auto simp: rows_step_ok_def)
          then show ?thesis
            using up[of ps None s1] res Return
            by (auto simp: rows_step_ok_def Nil rows_of_page_def)
        next
          case (Throw e)
          with ih res obtain ps where
            "rows page = []"
            "for_await (\<lambda>f s. Some (iteratePagesWith_next sendf prsw q rp f s)) f' s' = Some (ps, Some e, s1)"
            "concat (map rows_of_page ps) = []"
            by (auto simp: rows_step_ok_def)
          then show ?thesis
            using up[of ps "Some e" s1] res Throw
            by (auto simp: rows_step_ok_def Nil rows_of_page_def)
        next
          case (Yield row)
          with ih res obtain f1 rest1 where F1: "F1 = InPage f1 rest1" and
            k: "\<And>ps' err s''.
                for_await (\<lambda>f s. Some (iteratePagesWith_next sendf prsw q rp f s)) f1 s1 = Some (ps', err, s'') \<Longrightarrow>
                \<exists>ps. for_await (\<lambda>f s. Some (iteratePagesWith_next sendf prsw q rp f s)) f' s' = Some (ps, err, s'') \<and>
                   map (\<lambda>x. (x, s')) (rows page) @ concat (map rows_of_page ps) =
                     (row, s1) # map (\<lambda>x. (x, s1)) rest1 @ concat (map rows_of_page ps')"
            by (auto simp: rows_step_ok_def)
          have "\<exists>ps. for_await (\<lambda>f s. Some (iteratePagesWith_next sendf prsw q rp f s)) f s0 = Some (ps, err, s'') \<and>
                   concat (map rows_of_page ps) =
                     (row, s1) # map (\<lambda>x. (x, s1)) rest1 @ concat (map rows_of_page ps')"
            if "for_await (\<lambda>f s. Some (iteratePagesWith_next sendf prsw q rp f s)) f1 s1 = Some (ps', err, s'')"
            for ps' err s''
          proof -
            from k[OF that] obtain ps where
              p: "for_await (\<lambda>f s. Some (iteratePagesWith_next sendf prsw q rp f s)) f' s' = Some (ps, err, s'')"
              and c: "map (\<lambda>x. (x, s')) (rows page) @ concat (map rows_of_page ps) =
                     (row, s1) # map (\<lambda>x. (x, s1)) rest1 @ concat (map rows_of_page ps')"
              by blast
            from up[OF p] c show ?thesis
              by (intro exI[of _ "(page, s') # ps"]) (simp add: rows_of_page_def)
          qed
          then show ?thesis
            using res Yield F1 by (simp add: rows_step_ok_def Nil)
        qed
      qed
    qed
  qed
qed


lemma rows_to_pages:
  assumes "for_await nxt F s = Some res"
    and "nxt = iterateRows_next sendf prsw await_value q rp"
  shows "\<forall>f rest. F = InPage f rest \<longrightarrow>
           (\<exists>ps. for_await (\<lambda>f s. Some (iteratePagesWith_next sendf prsw q rp f s)) f s = Some (ps, snd res) \<and>
                 fst res = map (\<lambda>x. (x, s)) rest @ concat (map rows_of_page ps))"
  using assms
proof (induction nxt F s res rule: for_await_induct)
  case (step for_await' nxt F s res)
  show ?case
  proof (intro allI impI)
    fix f rest
    assume F: "F = InPage f rest"
    from step(2) obtain a where a: "nxt F s = Some a"
      by (cases "nxt F s") auto
    obtain r F1 s1 where a': "a = (r, F1, s1)" by (cases a)
    have ok: "rows_step_ok sendf prsw q rp f rest s a"
      using rows_next_pages[of sendf prsw await_value q rp F s a] a step(3) F by simp
    show "\<exists>ps. for_await (\<lambda>f s. Some (iteratePagesWith_next sendf prsw q rp f s)) f s = Some (ps, snd res) \<and>
                 fst res = map (\<lambda>x. (x, s)) rest @ concat (map rows_of_page ps)"
    proof (cases r)
      case Return
      with step(2) a a' have "res = ([], None, s1)" by simp
      with ok a' Return show ?thesis by (auto simp: rows_step_ok_def)
    next
      case (Throw e)
      with step(2) a a' have "res = ([], Some e, s1)" by simp
      with ok a' Throw show ?thesis by (auto simp: rows_step_ok_def)
    next
      case (Yield row)
      with step(2) a a' obtain ys err s' where
        rec: "for_await' nxt F1 s1 = Some (ys, err, s')" and res: "res = ((row, s1) # ys, err, s')"
        by (auto simp: bind_eq_Some_conv)
      from ok a' Yield obtain f1 rest1 where F1: "F1 = InPage f1 rest1" and
        k: "\<And>ps' err s'.
              for_await (\<lambda>f s. Some (iteratePagesWith_next sendf prsw q rp f s)) f1 s1 = Some (ps', err, s') \<Longrightarrow>
              \<exists>ps. for_await (\<lambda>f s. Some (iteratePagesWith_next sendf prsw q rp f s)) f s = Some (ps, err, s') \<and>
                 map (\<lambda>x. (x, s)) rest @ concat (map rows_of_page ps) =
                   (row, s1) # map (\<lambda>x. (x, s1)) rest1 @ concat (map rows_of_page ps')"
        by (auto simp: rows_step_ok_def)
      from step(1)[OF rec step(3)] F1 obtain ps' where
        p': "for_await (\<lambda>f s. Some (iteratePagesWith_next sendf prsw q rp f s)) f1 s1 = Some (ps', err, s')"
        and ys: "ys = map (\<lambda>x. (x, s1)) rest1 @ concat (map rows_of_page ps')"
        by auto
      from k[OF p'] ys res show ?thesis by auto
    qed
  qed
qed

lemma pages_run_Yield:
  "iteratePages_next sendf prs q f s = (Yield page, f', s') \<Longrightarrow>
   for_await (\<lambda>f s. Some (iteratePages_next sendf prs q f s)) f s =
     Option.bind (for_await (\<lambda>f s. Some (iteratePages_next sendf prs q f s)) f' s')
       (\<lambda>(ys, err, s''). Some ((page, s') # ys, err, s''))"
  by (subst for_await_total) simp

lemma pages_run_chain:
  assumes "served_in_order sendf prs q this tok ps" "ps \<noteq> []"
    and "\<forall>(page, s) \<in> set (butlast ps). truthy (nextToken page)"
    and "\<not> truthy (nextToken (fst (last ps)))"
    and "(frame = Start \<and> tok = None) \<or> (\<exists>pg. frame = AtYield pg \<and> nextToken pg = tok \<and> truthy tok)"
  shows "for_await (\<lambda>f s. Some (iteratePages_next sendf prs q f s)) frame this =
           Some (ps, None, snd (last ps))"
  using assms
proof (induction ps arbitrary: this tok frame)
  case Nil
  then show ?case by simp
next
  case (Cons a later)
  obtain page this' where a: "a = (page, this')" by (cases a)
  from Cons.prems(1) a have f: "fetchPage sendf prs this q tok = (Inr page, this')"
    and rest: "served_in_order sendf prs q this' (nextToken page) later"
    by simp_all
  from Cons.prems(5) f have n: "iteratePages_next sendf prs q frame this = (Yield page, AtYield page, this')"
    by (auto simp: iteratePages_next_def iteratePages_body_def)
  show ?case
  proof (cases later)
    case Nil
    with Cons.prems(4) a have "\<not> truthy (nextToken page)" by simp
    then show ?thesis
      by (simp add: pages_run_Yield[OF n] pages_run_falsy a Nil)
  next
    case (Cons b later2)
    with Cons.prems(3) a have t: "truthy (nextToken page)" by simp
    have "for_await (\<lambda>f s. Some (iteratePages_next sendf prs q f s)) (AtYield page) this' =
        Some (later, None, snd (last later))"
    proof (rule Cons.IH[OF rest])
      show "later \<noteq> []" using Cons by simp
      show "\<forall>(page, s) \<in> set (butlast later). truthy (nextToken page)"
        using Cons.prems(3) Cons by auto
      show "\<not> truthy (nextToken (fst (last later)))"
        using Cons.prems(4) Cons by simp
      show "(AtYield page = Start \<and> nextToken page = None) \<or>
          (\<exists>pg. AtYield page = AtYield pg \<and> nextToken pg = nextToken page \<and> truthy (nextToken page))"
        using t by simp
    qed
    then show ?thesis
      by (simp add: pages_run_Yield[OF n] a Cons)
  qed
qed

lemma served_in_order_requests:
  assumes "served_in_order (spy sendS) prs q this tok ps"
  shows "map (fst \<circ> client \<circ> snd) ps =
           map (\<lambda>k. fst (client this) @ requests (options this) q (take (Suc k) (tok # map (nextToken \<circ> fst) ps)))
             [0..<length ps]"
  using assms
proof (induction ps arbitrary: this tok)
  case Nil
  then show ?case by simp
next
  case (Cons a later)
  obtain page this' where a: "a = (page, this')" by (cases a)
  from Cons.prems a have f: "fetchPage (spy sendS) prs this q tok = (Inr page, this')"
    and rest: "served_in_order (spy sendS) prs q this' (nextToken page) later"
    by simp_all
  have c: "fst (client this') = fst (client this) @ requests (options this) q [tok]"
    using fetchPage_request[of sendS prs this q tok] f by (simp add: requests_def)
  have o: "options this' = options this"
    using fetchPage_options[of "spy sendS" prs this q tok] f by simp
  have "map (fst \<circ> client \<circ> snd) later =
      map (\<lambda>k. fst (client this') @ requests (options this') q
        (take (Suc k) (nextToken page # map (nextToken \<circ> fst) later))) [0..<length later]"
    by (rule Cons.IH[OF rest])
  moreover have "[0..<length (a # later)] = 0 # map Suc [0..<length later]"
    by (simp add: upt_conv_Cons map_Suc_upt del: upt_Suc)
  ultimately show ?case
    by (simp add: a c o requests_def o_def del: upt_Suc)
qed


text \<open>
  The page generator follows a chain: when pagination by hand from the first request
  gives the pages \<open>ps\<close>, every page but the last carrying a non-empty token and the last
  one none (or the empty string), a run of \<open>iteratePages\<close> yields exactly \<open>ps\<close>, in that order,
  and ends; and when page number \<open>k\<close> is yielded, a recording client has received exactly
  the \<open>k\<close> requests for the pages up to it.
\<close>

lemma iteratePages_follows_chain:
  assumes "served_in_order (spy sendS) prs q this None ps" "ps \<noteq> []"
    and "\<forall>(page, s) \<in> set (butlast ps). truthy (nextToken page)"
    and "\<not> truthy (nextToken (fst (last ps)))"
  shows "iteratePages (spy sendS) prs this q = Some (ps, None, snd (last ps)) \<and>
         map (fst \<circ> client \<circ> snd) ps =
           map (\<lambda>k. fst (client this) @
                      requests (options this) q (take (Suc k) (None # map (nextToken \<circ> fst) ps)))
             [0..<length ps]"
  unfolding iteratePages_def
  using pages_run_chain[OF assms, of Start] served_in_order_requests[OF assms(1)]
  by simp

text \<open>The two-page run is such a chain: two pages, after one and two requests.\<close>

lemma iteratePages_follows_chain_example:
  "\<exists>ps. length ps = 2 \<and>
      served_in_order example_send parseResultSet ''exec-1'' example_pager None ps \<and>
      iteratePages example_send parseResultSet example_pager ''exec-1'' = Some (ps, None, snd (last ps)) \<and>
      map (fst \<circ> client \<circ> snd) ps =
        [requests (options example_pager) ''exec-1'' [None],
         requests (options example_pager) ''exec-1'' [None, Some ''t2'']]"
proof -
  let ?ps = "fst (the (iteratePages example_send parseResultSet example_pager ''exec-1''))"
  have l: "length ?ps = 2" by code_simp
  have so: "served_in_order (spy (scripted (Inr empty_response))) parseResultSet ''exec-1'' example_pager None ?ps"
    unfolding example_send_def[symmetric] by code_simp
  have ne: "?ps \<noteq> []" using l by auto
  have t: "\<forall>(page, s) \<in> set (butlast ?ps). truthy (nextToken page)"
    by code_simp
  have f: "\<not> truthy (nextToken (fst (last ?ps)))"
    by code_simp
  have c0: "fst (client example_pager) = []"
    by (simp add: example_pager_def pager_on_def constructor_def)
  have toks: "map (nextToken \<circ> fst) ?ps = [Some ''t2'', None]"
    by code_simp
  from iteratePages_follows_chain[OF so ne t f] l so show ?thesis
    unfolding example_send_def[symmetric]
    by (intro exI[of _ ?ps]) (simp add: c0 toks numeral_2_eq_2 upt_conv_Cons del: upt_Suc)
qed

section \<open>The claims\<close>

text \<open>
  C4. Every Page Result produced satisfies \<open>rowCount = length rows\<close>: the page that
  \<open>fetchPage\<close> returns, the page that \<open>fetchPageWith\<close> returns, and every page that a run of
  \<open>iteratePages\<close> or of \<open>iteratePagesWith\<close> yields, for every client, parser and pager state.
\<close>

theorem rowCount_is_length:
  "(fetchPage sendf prs this q tok = (Inr page, this') \<longrightarrow> rowCount page = length (rows page)) \<and>
   (fetchPageWith sendf prsw this q rp tok = (Inr pageW, thisW) \<longrightarrow>
      rowCount pageW = length (rows pageW)) \<and>
   (iteratePages sendf prs this q = Some (ys, err, s) \<longrightarrow>
      (\<forall>(pg, s') \<in> set ys. rowCount pg = length (rows pg))) \<and>
   (iteratePagesWith sendf prsw this q rp = Some (ysW, errW, sW) \<longrightarrow>
      (\<forall>(pg, s') \<in> set ysW. rowCount pg = length (rows pg)))"
proof (intro conjI impI)
  assume "iteratePages sendf prs this q = Some (ys, err, s)"
  then show "\<forall>(pg, s') \<in> set ys. rowCount pg = length (rows pg)"
    unfolding iteratePages_def
    using for_await_yields[where P = "\<lambda>pg. rowCount pg = length (rows pg)" and res = "(ys, err, s)"]
    by (fastforce dest: iteratePages_next_rowCount)
next
  assume "iteratePagesWith sendf prsw this q rp = Some (ysW, errW, sW)"
  then show "\<forall>(pg, s') \<in> set ysW. rowCount pg = length (rows pg)"
    unfolding iteratePagesWith_def
    using for_await_yields[where P = "\<lambda>pg. rowCount pg = length (rows pg)" and res = "(ysW, errW, sW)"]
    by (fastforce dest: iteratePagesWith_next_rowCount)
qed (auto dest: fetchPage_rowCount fetchPageWith_rowCount)

theorem rowCount_is_length_witness:
  "(\<exists>page this'. fetchPage example_send parseResultSet example_pager ''exec-1'' None = (Inr page, this') \<and>
       length (rows page) = 2 \<and> rowCount page = length (rows page)) \<and>
   (\<exists>page this'. fetchPageWith example_send parseResultSetWith example_pager ''exec-1'' example_rowParser None
         = (Inr page, this') \<and>
       length (rows page) = 2 \<and> rowCount page = length (rows page)) \<and>
   (\<exists>pg1 s1 pg2 s2 err s. iteratePages example_send parseResultSet example_pager ''exec-1''
         = Some ([(pg1, s1), (pg2, s2)], err, s) \<and>
       rowCount pg1 = length (rows pg1) \<and> rowCount pg2 = length (rows pg2)) \<and>
   (\<exists>pg1 s1 pg2 s2 err s. iteratePagesWith example_send parseResultSetWith example_pager ''exec-1'' example_rowParser
         = Some ([(pg1, s1), (pg2, s2)], err, s) \<and>
       rowCount pg1 = length (rows pg1) \<and> rowCount pg2 = length (rows pg2))"
proof -
  let ?f = "fetchPage example_send parseResultSet example_pager ''exec-1'' None"
  let ?fw = "fetchPageWith example_send parseResultSetWith example_pager ''exec-1'' example_rowParser None"
  let ?i = "iteratePages example_send parseResultSet example_pager ''exec-1''"
  let ?iw = "iteratePagesWith example_send parseResultSetWith example_pager ''exec-1'' example_rowParser"
  have "case fst ?f of Inr page \<Rightarrow> length (rows page) = 2 | Inl e \<Rightarrow> False" by code_simp
  then obtain page this' where f: "?f = (Inr page, this')" and fl: "length (rows page) = 2"
    by (cases ?f; cases "fst ?f") auto
  have "case fst ?fw of Inr page \<Rightarrow> length (rows page) = 2 | Inl e \<Rightarrow> False" by code_simp
  then obtain pageW thisW where fw: "?fw = (Inr pageW, thisW)" and fwl: "length (rows pageW) = 2"
    by (cases ?fw; cases "fst ?fw") auto
  have "?i \<noteq> None \<and> length (fst (the ?i)) = 2" by code_simp
  then obtain pg1 s1 pg2 s2 err s where i: "?i = Some ([(pg1, s1), (pg2, s2)], err, s)"
    by (cases ?i) (auto simp: length_Suc_conv numeral_2_eq_2)
  have "?iw \<noteq> None \<and> length (fst (the ?iw)) = 2" by code_simp
  then obtain pw1 sw1 pw2 sw2 errW sW where iw: "?iw = Some ([(pw1, sw1), (pw2, sw2)], errW, sW)"
    by (cases ?iw) (auto simp: length_Suc_conv numeral_2_eq_2)
  note inst = rowCount_is_length[of example_send parseResultSet example_pager "''exec-1''" None page this'
      parseResultSetWith example_rowParser pageW thisW "[(pg1, s1), (pg2, s2)]" err s
      "[(pw1, sw1), (pw2, sw2)]" errW sW]
  from inst f fw i iw fl fwl show ?thesis by simp
qed

text \<open>
  C5. For every Page Result \<open>p\<close> of any row type, \<open>hasNextPage p\<close> is true exactly when
  \<open>p\<close>'s token is present, that is defined: \<open>undefined\<close>, whether written or left out, is the
  one value for which it is false. The second part is the page with zero rows.
\<close>

theorem hasNextPage_iff_token_present:
  "hasNextPage p = (\<exists>tok. nextToken p = Some tok) \<and>
   hasNextPage \<lparr> rows = [], nextToken = t, rowCount = 0 \<rparr> = (\<exists>tok. t = Some tok)"
  by (auto simp: hasNextPage_def)

text \<open>
  C9. A page whose token is the empty string has a next page for \<open>hasNextPage\<close> (the token
  is defined), yet \<open>iteratePages\<close> and \<open>iteratePagesWith\<close>, resumed at the \<open>yield\<close> of
  that page, return at once and leave the pager, its client included, as it was: no
  further fetch. When it is the first page, the whole run is that one page, and the
  pager's last state is the one right after the single fetch.
\<close>

theorem empty_token_ends_generators:
  "(nextToken page = Some [] \<longrightarrow>
      hasNextPage page \<and>
      iteratePages_next sendf prs q (AtYield page) this = (Return, Completed, this) \<and>
      (fetchPage sendf prs this q None = (Inr page, this') \<longrightarrow>
         iteratePages sendf prs this q = Some ([(page, this')], None, this'))) \<and>
   (nextToken pageW = Some [] \<longrightarrow>
      hasNextPage pageW \<and>
      iteratePagesWith_next sendf prsw q rp (AtYield pageW) thisW = (Return, Completed, thisW) \<and>
      (fetchPageWith sendf prsw thisW q rp None = (Inr pageW, thisW') \<longrightarrow>
         iteratePagesWith sendf prsw thisW q rp = Some ([(pageW, thisW')], None, thisW')))"
proof -
  have falsy: "\<not> truthy (Some [])" by (simp add: truthy_def)
  have a: "hasNextPage page" if "nextToken page = Some []"
    using that by (simp add: hasNextPage_def)
  have a': "hasNextPage pageW" if "nextToken pageW = Some []"
    using that by (simp add: hasNextPage_def)
  have b: "iteratePages_next sendf prs q (AtYield page) this = (Return, Completed, this)"
    if "nextToken page = Some []"
    using that falsy by (simp add: iteratePages_next_def)
  have c: "iteratePagesWith_next sendf prsw q rp (AtYield pageW) thisW = (Return, Completed, thisW)"
    if "nextToken pageW = Some []"
    using that falsy by (simp add: iteratePagesWith_next_def)
  have d: "iteratePages sendf prs this q = Some ([(page, this')], None, this')"
    if "nextToken page = Some []" "fetchPage sendf prs this q None = (Inr page, this')"
    using that falsy by (simp add: iteratePages_first pages_run_falsy)
  have e: "iteratePagesWith sendf prsw thisW q rp = Some ([(pageW, thisW')], None, thisW')"
    if "nextToken pageW = Some []" "fetchPageWith sendf prsw thisW q rp None = (Inr pageW, thisW')"
    using that falsy by (simp add: iteratePagesWith_first pagesWith_run_falsy)
  from a a' b c d e show ?thesis by blast
qed

theorem empty_token_ends_generators_witness:
  "(\<exists>page this'.
      fetchPage example_send parseResultSet (pager_on empty_token_script) ''exec-1'' None = (Inr page, this') \<and>
      nextToken page = Some [] \<and> hasNextPage page \<and>
      iteratePages_next example_send parseResultSet ''exec-1'' (AtYield page) this' = (Return, Completed, this') \<and>
      iteratePages example_send parseResultSet (pager_on empty_token_script) ''exec-1''
        = Some ([(page, this')], None, this')) \<and>
   (\<exists>page this'.
      fetchPageWith example_send parseResultSetWith (pager_on empty_token_script) ''exec-1'' example_rowParser None
        = (Inr page, this') \<and>
      nextToken page = Some [] \<and> hasNextPage page \<and>
      iteratePagesWith_next example_send parseResultSetWith ''exec-1'' example_rowParser (AtYield page) this'
        = (Return, Completed, this') \<and>
      iteratePagesWith example_send parseResultSetWith (pager_on empty_token_script) ''exec-1'' example_rowParser
        = Some ([(page, this')], None, this'))"
proof -
  let ?f = "fetchPage example_send parseResultSet (pager_on empty_token_script) ''exec-1'' None"
  let ?fw = "fetchPageWith example_send parseResultSetWith (pager_on empty_token_script) ''exec-1''
               example_rowParser None"
  have "case fst ?f of Inr page \<Rightarrow> nextToken page = Some [] | Inl e \<Rightarrow> False" by code_simp
  then obtain page this' where f: "?f = (Inr page, this')" and t: "nextToken page = Some []"
    by (cases ?f; cases "fst ?f") auto
  have "case fst ?fw of Inr page \<Rightarrow> nextToken page = Some [] | Inl e \<Rightarrow> False" by code_simp
  then obtain pageW thisW' where fw: "?fw = (Inr pageW, thisW')" and tw: "nextToken pageW = Some []"
    by (cases ?fw; cases "fst ?fw") auto
  note inst1 = empty_token_ends_generators[of page example_send parseResultSet "''exec-1''"
      "pager_on empty_token_script" this' pageW parseResultSetWith example_rowParser
      "pager_on empty_token_script" thisW']
  note inst2 = empty_token_ends_generators[of page example_send parseResultSet "''exec-1''"
      this' this' pageW parseResultSetWith example_rowParser thisW' thisW']
  from inst1 inst2 f t fw tw show ?thesis by simp
qed

text \<open>
  C3. \<open>iteratePages\<close> yields the first page, never zero pages: the first \<open>next()\<close> issues a
  fetch before any test, and yields the page that fetch returns, whatever its rows and
  its token; every run that ends then starts with that page. When the service returns a
  single empty page (the parser finds no rows, no token), the run is exactly one Page
  Result with \<open>rows = []\<close>, \<open>rowCount = 0\<close> and the token absent, after exactly one request.
  (A run yields no page only when that first fetch itself fails.)
\<close>

theorem first_page_always_yielded:
  "iteratePages_next sendf prs q Start this =
     (case fetchPage sendf prs this q None of
        (Inl e, this') \<Rightarrow> (Throw e, Completed, this')
      | (Inr page, this') \<Rightarrow> (Yield page, AtYield page, this')) \<and>
   (fetchPage sendf prs this q None = (Inr page, this') \<longrightarrow>
      iteratePages_next sendf prs q Start this = (Yield page, AtYield page, this') \<and>
      (\<forall>ys err s. iteratePages sendf prs this q = Some (ys, err, s) \<longrightarrow>
         (\<exists>rest. ys = (page, this') # rest))) \<and>
   (sendf (client this)
        \<lparr> QueryExecutionId = q, NextToken = None,
          MaxResults = Some (maxResults (options this)), QueryResultType = None \<rparr>
      = (Inr \<lparr> ResultSet = rs, NextToken_out = None \<rparr>, c') \<and>
    prs (parser this) rs = (Inr [], p') \<longrightarrow>
      iteratePages sendf prs this q =
        Some ([(\<lparr> rows = [], nextToken = None, rowCount = 0 \<rparr>, this\<lparr>client := c', parser := p'\<rparr>)],
              None, this\<lparr>client := c', parser := p'\<rparr>))"
proof (intro conjI impI allI)
  show "iteratePages_next sendf prs q Start this =
     (case fetchPage sendf prs this q None of
        (Inl e, this') \<Rightarrow> (Throw e, Completed, this')
      | (Inr page, this') \<Rightarrow> (Yield page, AtYield page, this'))"
    by (simp add: iteratePages_next_def iteratePages_body_def)
next
  assume "fetchPage sendf prs this q None = (Inr page, this')"
  then show "iteratePages_next sendf prs q Start this = (Yield page, AtYield page, this')"
    by (simp add: iteratePages_next_def iteratePages_body_def)
next
  fix ys err s
  assume "fetchPage sendf prs this q None = (Inr page, this')"
    and "iteratePages sendf prs this q = Some (ys, err, s)"
  then show "\<exists>rest. ys = (page, this') # rest"
    by (auto simp: iteratePages_first bind_eq_Some_conv)
next
  assume a: "sendf (client this)
        \<lparr> QueryExecutionId = q, NextToken = None,
          MaxResults = Some (maxResults (options this)), QueryResultType = None \<rparr>
      = (Inr \<lparr> ResultSet = rs, NextToken_out = None \<rparr>, c') \<and>
    prs (parser this) rs = (Inr [], p')"
  then have "fetchPage sendf prs this q None =
      (Inr \<lparr> rows = [], nextToken = None, rowCount = 0 \<rparr>, this\<lparr>client := c', parser := p'\<rparr>)"
    by (simp add: fetchPage_def)
  moreover have "\<not> truthy (nextToken \<lparr> rows = [], nextToken = None, rowCount = 0 \<rparr>)"
    by (simp add: truthy_def)
  ultimately show "iteratePages sendf prs this q =
        Some ([(\<lparr> rows = [], nextToken = None, rowCount = 0 \<rparr>, this\<lparr>client := c', parser := p'\<rparr>)],
              None, this\<lparr>client := c', parser := p'\<rparr>)"
    by (simp add: iteratePages_first pages_run_falsy)
qed

theorem first_page_always_yielded_witness:
  "iteratePages example_send parseResultSet (pager_on []) ''exec-1'' =
     Some ([(\<lparr> rows = [], nextToken = None, rowCount = 0 \<rparr>,
             (pager_on [])\<lparr> client := ([\<lparr> QueryExecutionId = ''exec-1'', NextToken = None,
                                            MaxResults = Some 1000, QueryResultType = None \<rparr>], []),
                             parser := \<lparr> headerSeen = False \<rparr> \<rparr>)],
           None,
           (pager_on [])\<lparr> client := ([\<lparr> QueryExecutionId = ''exec-1'', NextToken = None,
                                          MaxResults = Some 1000, QueryResultType = None \<rparr>], []),
                           parser := \<lparr> headerSeen = False \<rparr> \<rparr>) \<and>
   iteratePages_next example_send parseResultSet ''exec-1'' Start (pager_on []) =
     (Yield \<lparr> rows = [], nextToken = None, rowCount = 0 \<rparr>,
      AtYield \<lparr> rows = [], nextToken = None, rowCount = 0 \<rparr>,
      (pager_on [])\<lparr> client := ([\<lparr> QueryExecutionId = ''exec-1'', NextToken = None,
                                     MaxResults = Some 1000, QueryResultType = None \<rparr>], []),
                      parser := \<lparr> headerSeen = False \<rparr> \<rparr>)"
proof -
  let ?rq = "\<lparr> QueryExecutionId = ''exec-1'', NextToken = None,
               MaxResults = Some (maxResults (options (pager_on []))), QueryResultType = None \<rparr>"
  let ?c = "([\<lparr> QueryExecutionId = ''exec-1'', NextToken = None,
                 MaxResults = Some (1000::int), QueryResultType = None \<rparr>],
             [] :: (string + ResultSet GetQueryResultsCommandOutput) list)"
  have s: "example_send (client (pager_on [])) ?rq =
      (Inr \<lparr> ResultSet = Some \<lparr> ColumnInfo = [], Rows = [] \<rparr>, NextToken_out = None \<rparr>, ?c)"
    by (simp add: example_send_def spy_def scripted_def pager_on_def constructor_def no_options_def
        empty_response_def DEFAULT_MAX_RESULTS_def)
  have p: "parseResultSet (parser (pager_on [])) (Some \<lparr> ColumnInfo = [], Rows = [] \<rparr>) =
      (Inr [], \<lparr> headerSeen = False \<rparr>)"
    by (simp add: parseResultSet_def pager_on_def constructor_def new_AthenaQueryResultParser_def)
  have f: "fetchPage example_send parseResultSet (pager_on []) ''exec-1'' None =
      (Inr \<lparr> rows = [], nextToken = None, rowCount = 0 \<rparr>,
       (pager_on [])\<lparr>client := ?c, parser := \<lparr> headerSeen = False \<rparr>\<rparr>)"
    by (simp add: fetchPage_def s p)
  note inst = first_page_always_yielded[of example_send parseResultSet "''exec-1''" "pager_on []"
      "\<lparr> rows = [], nextToken = None, rowCount = 0 \<rparr>"
      "(pager_on [])\<lparr>client := ?c, parser := \<lparr> headerSeen = False \<rparr>\<rparr>"
      "Some \<lparr> ColumnInfo = [], Rows = [] \<rparr>" ?c "\<lparr> headerSeen = False \<rparr>"]
  from inst s p have r3: "iteratePages example_send parseResultSet (pager_on []) ''exec-1'' =
      Some ([(\<lparr> rows = [], nextToken = None, rowCount = 0 \<rparr>,
              (pager_on [])\<lparr>client := ?c, parser := \<lparr> headerSeen = False \<rparr>\<rparr>)],
            None, (pager_on [])\<lparr>client := ?c, parser := \<lparr> headerSeen = False \<rparr>\<rparr>)"
    by blast
  from inst f have r2: "iteratePages_next example_send parseResultSet ''exec-1'' Start (pager_on []) =
      (Yield \<lparr> rows = [], nextToken = None, rowCount = 0 \<rparr>,
       AtYield \<lparr> rows = [], nextToken = None, rowCount = 0 \<rparr>,
       (pager_on [])\<lparr>client := ?c, parser := \<lparr> headerSeen = False \<rparr>\<rparr>)"
    by blast
  from r3 r2 show ?thesis by blast
qed

text \<open>
  C10. The option \<open>queryResultType\<close> has no effect. Two pagers that agree on the client, the
  parser and \<open>maxResults\<close>, whatever their \<open>queryResultType\<close>, get the same result from
  \<open>fetchPage\<close> and from \<open>fetchPageWith\<close> and leave the client and the parser in the same
  state; a fetch never changes the options, so they go on agreeing. The request that a
  recording client receives is exactly \<open>QueryExecutionId\<close>, \<open>NextToken\<close> and \<open>MaxResults\<close>,
  with no \<open>QueryResultType\<close>. Two pagers constructed from options that differ only in
  \<open>queryResultType\<close> agree in that way.
\<close>

theorem queryResultType_has_no_effect:
  "(client this2 = client this1 \<and> parser this2 = parser this1 \<and>
    maxResults (options this2) = maxResults (options this1) \<longrightarrow>
      fst (fetchPage sendf prs this2 q tok) = fst (fetchPage sendf prs this1 q tok) \<and>
      client (snd (fetchPage sendf prs this2 q tok)) = client (snd (fetchPage sendf prs this1 q tok)) \<and>
      parser (snd (fetchPage sendf prs this2 q tok)) = parser (snd (fetchPage sendf prs this1 q tok)) \<and>
      fst (fetchPageWith sendf prsw this2 q rp tok) = fst (fetchPageWith sendf prsw this1 q rp tok) \<and>
      client (snd (fetchPageWith sendf prsw this2 q rp tok)) =
        client (snd (fetchPageWith sendf prsw this1 q rp tok)) \<and>
      parser (snd (fetchPageWith sendf prsw this2 q rp tok)) =
        parser (snd (fetchPageWith sendf prsw this1 q rp tok))) \<and>
   options (snd (fetchPage sendf prs this1 q tok)) = options this1 \<and>
   options (snd (fetchPageWith sendf prsw this1 q rp tok)) = options this1 \<and>
   fst (client (snd (fetchPage (spy sendS) prs thisS q tok))) =
     fst (client thisS) @ [\<lparr> QueryExecutionId = q, NextToken = tok,
                             MaxResults = Some (maxResults (options thisS)), QueryResultType = None \<rparr>] \<and>
   fst (client (snd (fetchPageWith (spy sendS) prsw thisS q rp tok))) =
     fst (client thisS) @ [\<lparr> QueryExecutionId = q, NextToken = tok,
                             MaxResults = Some (maxResults (options thisS)), QueryResultType = None \<rparr>] \<and>
   client (constructor np c \<lparr> maxResults_opt = m, queryResultType_opt = q2 \<rparr>) =
     client (constructor np c \<lparr> maxResults_opt = m, queryResultType_opt = q1 \<rparr>) \<and>
   parser (constructor np c \<lparr> maxResults_opt = m, queryResultType_opt = q2 \<rparr>) =
     parser (constructor np c \<lparr> maxResults_opt = m, queryResultType_opt = q1 \<rparr>) \<and>
   maxResults (options (constructor np c \<lparr> maxResults_opt = m, queryResultType_opt = q2 \<rparr>)) =
     maxResults (options (constructor np c \<lparr> maxResults_opt = m, queryResultType_opt = q1 \<rparr>))"
  using fetchPage_ignores_queryResultType[of this2 this1 sendf prs q tok]
    fetchPageWith_ignores_queryResultType[of this2 this1 sendf prsw q rp tok]
    fetchPage_request[of sendS prs thisS q tok] fetchPageWith_request[of sendS prsw thisS q rp tok]
    fetchPage_options[of sendf prs this1 q tok] fetchPageWith_options[of sendf prsw this1 q rp tok]
  by (simp add: constructor_def)


theorem queryResultType_has_no_effect_witness:
  "options (example_pager_with \<lparr> maxResults_opt = Some 100, queryResultType_opt = Some ''DATA_MANIFEST'' \<rparr>) \<noteq>
     options (example_pager_with \<lparr> maxResults_opt = Some 100, queryResultType_opt = None \<rparr>) \<and>
   fst (fetchPage example_send parseResultSet
          (example_pager_with \<lparr> maxResults_opt = Some 100, queryResultType_opt = Some ''DATA_MANIFEST'' \<rparr>)
          ''exec-1'' None) =
     fst (fetchPage example_send parseResultSet
          (example_pager_with \<lparr> maxResults_opt = Some 100, queryResultType_opt = None \<rparr>) ''exec-1'' None) \<and>
   fst (fetchPage example_send parseResultSet
          (example_pager_with \<lparr> maxResults_opt = Some 100, queryResultType_opt = None \<rparr>) ''exec-1'' None) =
     Inr \<lparr> rows = [[(''id'', Some ''1'')], [(''id'', Some ''2'')]], nextToken = Some ''t2'', rowCount = 2 \<rparr> \<and>
   fst (client (snd (fetchPage example_send parseResultSet
          (example_pager_with \<lparr> maxResults_opt = Some 100, queryResultType_opt = Some ''DATA_MANIFEST'' \<rparr>)
          ''exec-1'' None))) =
     [\<lparr> QueryExecutionId = ''exec-1'', NextToken = None, MaxResults = Some 100, QueryResultType = None \<rparr>]"
proof -
  let ?p1 = "example_pager_with \<lparr> maxResults_opt = Some 100, queryResultType_opt = None \<rparr>"
  let ?p2 = "example_pager_with \<lparr> maxResults_opt = Some 100, queryResultType_opt = Some ''DATA_MANIFEST'' \<rparr>"
  have h: "client ?p2 = client ?p1 \<and> parser ?p2 = parser ?p1 \<and>
      maxResults (options ?p2) = maxResults (options ?p1)"
    by (simp add: example_pager_with_def constructor_def)
  have d: "options ?p2 \<noteq> options ?p1"
    by (simp add: example_pager_with_def constructor_def DEFAULT_QUERY_RESULT_TYPE_def)
  have v: "fst (fetchPage example_send parseResultSet ?p1 ''exec-1'' None) =
      Inr \<lparr> rows = [[(''id'', Some ''1'')], [(''id'', Some ''2'')]], nextToken = Some ''t2'', rowCount = 2 \<rparr>"
    by code_simp
  have m: "maxResults (options ?p2) = 100" "fst (client ?p2) = []"
    by (simp_all add: example_pager_with_def constructor_def)
  note inst = queryResultType_has_no_effect[where ?this1.0 = ?p1 and ?this2.0 = ?p2 and thisS = ?p2
      and sendf = example_send and sendS = "scripted (Inr empty_response)" and prs = parseResultSet
      and q = "''exec-1''" and tok = None and prsw = parseResultSetWith and rp = example_rowParser
      and np = new_AthenaQueryResultParser and c = "([], example_script)" and m = "Some 100"
      and ?q1.0 = None and ?q2.0 = "Some ''DATA_MANIFEST''"]
  from inst h have e: "fst (fetchPage example_send parseResultSet ?p2 ''exec-1'' None) =
      fst (fetchPage example_send parseResultSet ?p1 ''exec-1'' None)"
    by blast
  from inst have "fst (client (snd (fetchPage (spy (scripted (Inr empty_response))) parseResultSet ?p2
        ''exec-1'' None))) =
      fst (client ?p2) @ [\<lparr> QueryExecutionId = ''exec-1'', NextToken = None,
                            MaxResults = Some (maxResults (options ?p2)), QueryResultType = None \<rparr>]"
    by blast
  then have r: "fst (client (snd (fetchPage example_send parseResultSet ?p2 ''exec-1'' None))) =
      [\<lparr> QueryExecutionId = ''exec-1'', NextToken = None, MaxResults = Some 100, QueryResultType = None \<rparr>]"
    by (simp add: example_send_def m)
  from d e v r show ?thesis by blast
qed

text \<open>
  C8. \<open>fetchPage\<close> and \<open>fetchPageWith\<close> end with an error exactly when the client's \<open>send\<close>
  rejects with that error (the parser is then not called), or \<open>send\<close> answers and the
  parser's method (which is what calls a custom row parser) throws that error: the error
  is passed on as it is, and there is no other error. Whatever the outcome, a recording
  client has received exactly one request: nothing is retried. For the generators, a
  \<open>next()\<close> throws exactly when its fetch fails, with that same error; the generator is
  then finished, the consumer's loop ends there with that error and no further page, and
  a finished generator returns without touching the pager. \<open>iterateRows\<close> throws what its
  page generator throws and is finished as well.
\<close>

theorem errors_propagate_unchanged:
  "(fetchPage sendf prs this q tok = (Inl e, this') \<longleftrightarrow>
      (\<exists>c'. sendf (client this) \<lparr> QueryExecutionId = q, NextToken = tok,
                  MaxResults = Some (maxResults (options this)), QueryResultType = None \<rparr> = (Inl e, c') \<and>
            this' = this\<lparr>client := c'\<rparr>) \<or>
      (\<exists>resp c' p'. sendf (client this) \<lparr> QueryExecutionId = q, NextToken = tok,
                  MaxResults = Some (maxResults (options this)), QueryResultType = None \<rparr> = (Inr resp, c') \<and>
            prs (parser this) (ResultSet resp) = (Inl e, p') \<and>
            this' = this\<lparr>client := c', parser := p'\<rparr>)) \<and>
   (fetchPageWith sendf prsw this q rp tok = (Inl e, this') \<longleftrightarrow>
      (\<exists>c'. sendf (client this) \<lparr> QueryExecutionId = q, NextToken = tok,
                  MaxResults = Some (maxResults (options this)), QueryResultType = None \<rparr> = (Inl e, c') \<and>
            this' = this\<lparr>client := c'\<rparr>) \<or>
      (\<exists>resp c' p'. sendf (client this) \<lparr> QueryExecutionId = q, NextToken = tok,
                  MaxResults = Some (maxResults (options this)), QueryResultType = None \<rparr> = (Inr resp, c') \<and>
            prsw (parser this) (ResultSet resp) rp = (Inl e, p') \<and>
            this' = this\<lparr>client := c', parser := p'\<rparr>)) \<and>
   fst (client (snd (fetchPage (spy sendS) prs thisS q tok))) =
     fst (client thisS) @ [\<lparr> QueryExecutionId = q, NextToken = tok,
                             MaxResults = Some (maxResults (options thisS)), QueryResultType = None \<rparr>] \<and>
   fst (client (snd (fetchPageWith (spy sendS) prsw thisS q rp tok))) =
     fst (client thisS) @ [\<lparr> QueryExecutionId = q, NextToken = tok,
                             MaxResults = Some (maxResults (options thisS)), QueryResultType = None \<rparr>] \<and>
   (iteratePages_next sendf prs q frame this = (Throw e, frame', this') \<longleftrightarrow>
      frame' = Completed \<and>
      ((frame = Start \<and> fetchPage sendf prs this q None = (Inl e, this')) \<or>
       (\<exists>page. frame = AtYield page \<and> truthy (nextToken page) \<and>
          fetchPage sendf prs this q (nextToken page) = (Inl e, this')))) \<and>
   (iteratePagesWith_next sendf prsw q rp frameW this = (Throw e, frameW', this') \<longleftrightarrow>
      frameW' = Completed \<and>
      ((frameW = Start \<and> fetchPageWith sendf prsw this q rp None = (Inl e, this')) \<or>
       (\<exists>page. frameW = AtYield page \<and> truthy (nextToken page) \<and>
          fetchPageWith sendf prsw this q rp (nextToken page) = (Inl e, this')))) \<and>
   (iteratePages_next sendf prs q frame this = (Throw e, frame', this') \<longrightarrow>
      for_await (\<lambda>f s. Some (iteratePages_next sendf prs q f s)) frame this = Some ([], Some e, this')) \<and>
   (iteratePagesWith_next sendf prsw q rp frameW this = (Throw e, frameW', this') \<longrightarrow>
      for_await (\<lambda>f s. Some (iteratePagesWith_next sendf prsw q rp f s)) frameW this =
        Some ([], Some e, this')) \<and>
   iteratePages_next sendf prs q Completed this = (Return, Completed, this) \<and>
   iteratePagesWith_next sendf prsw q rp Completed this = (Return, Completed, this) \<and>
   (iteratePagesWith_next sendf prsw q rp frameW this = (Throw e, frameW', this') \<longrightarrow>
      iterateRows_next sendf prsw awaitRow q rp (InPage frameW []) this = Some (Throw e, RowsCompleted, this')) \<and>
   iterateRows_next sendf prsw awaitRow q rp RowsCompleted this = Some (Return, RowsCompleted, this)"
proof -
  have rows1: "iterateRows_next sendf prsw awaitRow q rp (InPage frameW []) this = Some (Throw e, RowsCompleted, this')"
    if "iteratePagesWith_next sendf prsw q rp frameW this = (Throw e, frameW', this')"
    using that by (simp add: iterateRows_next_Nil)
  have rows2: "iterateRows_next sendf prsw awaitRow q rp RowsCompleted this = Some (Return, RowsCompleted, this)"
    by (subst iterateRows_next.simps) simp
  have done1: "iteratePages_next sendf prs q Completed this = (Return, Completed, this)"
    by (simp add: iteratePages_next_def)
  have done2: "iteratePagesWith_next sendf prsw q rp Completed this = (Return, Completed, this)"
    by (simp add: iteratePagesWith_next_def)
  note parts = fetchPage_error_iff[of sendf prs this q tok e this']
    fetchPageWith_error_iff[of sendf prsw this q rp tok e this']
    fetchPage_request[of sendS prs thisS q tok] fetchPageWith_request[of sendS prsw thisS q rp tok]
    iteratePages_next_Throw[of sendf prs q frame this e frame' this']
    iteratePagesWith_next_Throw[of sendf prsw q rp frameW this e frameW' this']
    for_await_Throw[of "iteratePages_next sendf prs q" frame this e frame' this']
    for_await_Throw[of "iteratePagesWith_next sendf prsw q rp" frameW this e frameW' this']
    done1 done2 rows1 rows2
  show ?thesis
    by (intro conjI impI) (use parts in \<open>assumption | blast\<close>)+
qed


theorem errors_propagate_unchanged_witness:
  "fetchPage example_send parseResultSet (pager_on (tl failing_script)) ''exec-1'' (Some ''t2'') =
     (Inl ''ThrottlingException'',
      (pager_on (tl failing_script))
        \<lparr>client := ([\<lparr> QueryExecutionId = ''exec-1'', NextToken = Some ''t2'',
                          MaxResults = Some 1000, QueryResultType = None \<rparr>], tl (tl failing_script))\<rparr>) \<and>
   fetchPageWith example_send parseResultSetWith example_pager ''exec-1'' throwing_rowParser None =
     (Inl ''bad row'',
      example_pager
        \<lparr>client := ([\<lparr> QueryExecutionId = ''exec-1'', NextToken = None,
                          MaxResults = Some 1000, QueryResultType = None \<rparr>], tl example_script),
         parser := \<lparr> headerSeen = True \<rparr>\<rparr>) \<and>
   iteratePages_next example_send parseResultSet ''exec-1'' Start (pager_on (tl failing_script)) =
     (Throw ''ThrottlingException'', Completed,
      (pager_on (tl failing_script))
        \<lparr>client := ([\<lparr> QueryExecutionId = ''exec-1'', NextToken = None,
                          MaxResults = Some 1000, QueryResultType = None \<rparr>], tl (tl failing_script))\<rparr>) \<and>
   iteratePages example_send parseResultSet (pager_on (tl failing_script)) ''exec-1'' =
     Some ([], Some ''ThrottlingException'',
      (pager_on (tl failing_script))
        \<lparr>client := ([\<lparr> QueryExecutionId = ''exec-1'', NextToken = None,
                          MaxResults = Some 1000, QueryResultType = None \<rparr>], tl (tl failing_script))\<rparr>) \<and>
   map (rows \<circ> fst) (fst (the (iteratePages example_send parseResultSet (pager_on failing_script) ''exec-1'')))
     = [[[(''x'', Some ''1'')]]] \<and>
   fst (snd (the (iteratePages example_send parseResultSet (pager_on failing_script) ''exec-1'')))
     = Some ''ThrottlingException'' \<and>
   length (fst (client (snd (snd (the (iteratePages example_send parseResultSet (pager_on failing_script)
     ''exec-1'')))))) = 2"
proof -
  let ?P = "pager_on (tl failing_script)"
  let ?rq = "\<lambda>tok. \<lparr> QueryExecutionId = ''exec-1'', NextToken = tok,
                      MaxResults = Some (1000::int), QueryResultType = None \<rparr>"
  have mx: "maxResults (options ?P) = 1000" "maxResults (options example_pager) = 1000"
    by (simp_all add: pager_on_def example_pager_def constructor_def no_options_def DEFAULT_MAX_RESULTS_def)
  have s1: "example_send (client ?P) (?rq tok) = (Inl ''ThrottlingException'', ([?rq tok], tl (tl failing_script)))"
    for tok
    by (simp add: example_send_def spy_def scripted_def pager_on_def constructor_def failing_script_def)
  have s2: "example_send (client example_pager) (?rq None) =
      (Inr (\<lparr> ResultSet = Some \<lparr> ColumnInfo = [''id''], Rows = [[Some ''id''], [Some ''1''], [Some ''2'']] \<rparr>,
              NextToken_out = Some ''t2'' \<rparr>), ([?rq None], tl example_script))"
    by (simp add: example_send_def spy_def scripted_def pager_on_def example_pager_def constructor_def
        example_script_def)
  have p2: "parseResultSetWith (parser example_pager)
       (Some \<lparr> ColumnInfo = [''id''], Rows = [[Some ''id''], [Some ''1''], [Some ''2'']] \<rparr>) throwing_rowParser =
      (Inl ''bad row'', \<lparr> headerSeen = True \<rparr>)"
    by (simp add: parseResultSetWith_def parseResultSet_def isHeaderRow_def example_pager_def pager_on_def
        constructor_def new_AthenaQueryResultParser_def throwing_rowParser_def)
  have a: "fetchPage example_send parseResultSet ?P ''exec-1'' tok =
      (Inl ''ThrottlingException'', ?P\<lparr>client := ([?rq tok], tl (tl failing_script))\<rparr>)" for tok
    using errors_propagate_unchanged[where sendf = example_send and prs = parseResultSet and this = ?P
        and q = "''exec-1''" and tok = tok and e = "''ThrottlingException''"
        and this' = "?P\<lparr>client := ([?rq tok], tl (tl failing_script))\<rparr>", THEN conjunct1]
      s1[of tok] mx
    by simp
  have b: "fetchPageWith example_send parseResultSetWith example_pager ''exec-1'' throwing_rowParser None =
      (Inl ''bad row'', example_pager\<lparr>client := ([?rq None], tl example_script),
         parser := \<lparr> headerSeen = True \<rparr>\<rparr>)"
    using errors_propagate_unchanged[where sendf = example_send and prsw = parseResultSetWith
        and this = example_pager and q = "''exec-1''" and tok = None and e = "''bad row''"
        and rp = throwing_rowParser
        and this' = "example_pager\<lparr>client := ([?rq None], tl example_script),
                        parser := \<lparr> headerSeen = True \<rparr>\<rparr>", THEN conjunct2, THEN conjunct1]
      s2 p2 mx
    by simp
  note inst = errors_propagate_unchanged[where sendf = example_send and prs = parseResultSet and this = ?P
      and q = "''exec-1''" and e = "''ThrottlingException''" and frame = Start and frame' = Completed
      and this' = "?P\<lparr>client := ([?rq None], tl (tl failing_script))\<rparr>"]
  have c: "iteratePages_next example_send parseResultSet ''exec-1'' Start ?P =
      (Throw ''ThrottlingException'', Completed, ?P\<lparr>client := ([?rq None], tl (tl failing_script))\<rparr>)"
    using inst a[of None] by blast
  have d: "iteratePages example_send parseResultSet ?P ''exec-1'' =
      Some ([], Some ''ThrottlingException'', ?P\<lparr>client := ([?rq None], tl (tl failing_script))\<rparr>)"
    unfolding iteratePages_def using inst c by blast
  have e1: "map (rows \<circ> fst) (fst (the (iteratePages example_send parseResultSet (pager_on failing_script)
      ''exec-1''))) = [[[(''x'', Some ''1'')]]]"
    by code_simp
  have e2: "fst (snd (the (iteratePages example_send parseResultSet (pager_on failing_script) ''exec-1'')))
     = Some ''ThrottlingException''"
    by code_simp
  have e3: "length (fst (client (snd (snd (the (iteratePages example_send parseResultSet
      (pager_on failing_script) ''exec-1'')))))) = 2"
    by code_simp
  from a[of "Some ''t2''"] b c d e1 e2 e3 show ?thesis by blast
qed

text \<open>
  C6. \<open>reset\<close> replaces the pager's parser by a freshly initialized one and changes nothing
  else; with the parser modelled from the spec, the fresh parser's header-seen flag is
  cleared. So when the service then answers a first fetch by the query's header row
  (its cells are the column names) and one data row, \<open>fetchPage\<close> after \<open>reset\<close> gives
  exactly the one data row, whatever the pager had parsed before; without \<open>reset\<close>, a pager
  whose parser has seen a header gives two rows, the header row among them.
\<close>

theorem reset_restores_header_skipping:
  "parser (reset np this) = np \<and> client (reset np this) = client this \<and>
   options (reset np this) = options this \<and>
   headerSeen (parser (reset new_AthenaQueryResultParser thisA)) = False \<and>
   (isHeaderRow cols header \<and>
    sendf (client thisA)
        \<lparr> QueryExecutionId = q, NextToken = None,
          MaxResults = Some (maxResults (options thisA)), QueryResultType = None \<rparr>
      = (Inr \<lparr> ResultSet = Some \<lparr> ColumnInfo = cols, Rows = [header, dat] \<rparr>, NextToken_out = tok' \<rparr>, c')
    \<longrightarrow>
      fst (fetchPage sendf parseResultSet (reset new_AthenaQueryResultParser thisA) q None) =
        Inr \<lparr> rows = [toParsedRow cols dat], nextToken = tok', rowCount = 1 \<rparr> \<and>
      (headerSeen (parser thisA) \<longrightarrow>
         fst (fetchPage sendf parseResultSet thisA q None) =
           Inr \<lparr> rows = [toParsedRow cols header, toParsedRow cols dat], nextToken = tok', rowCount = 2 \<rparr>))"
  by (simp add: reset_def new_AthenaQueryResultParser_def fetchPage_def parseResultSet_def)

theorem reset_restores_header_skipping_witness:
  "headerSeen (parser (snd (fetchPage example_send parseResultSet (pager_on two_queries_script) ''exec-1'' None))) \<and>
   fst (fetchPage example_send parseResultSet
          (reset new_AthenaQueryResultParser
             (snd (fetchPage example_send parseResultSet (pager_on two_queries_script) ''exec-1'' None)))
          ''exec-2'' None) =
     Inr \<lparr> rows = [[(''b'', Some ''2'')]], nextToken = None, rowCount = 1 \<rparr> \<and>
   fst (fetchPage example_send parseResultSet
          (snd (fetchPage example_send parseResultSet (pager_on two_queries_script) ''exec-1'' None))
          ''exec-2'' None) =
     Inr \<lparr> rows = [[(''b'', Some ''b'')], [(''b'', Some ''2'')]], nextToken = None, rowCount = 2 \<rparr> \<and>
   fst (fetchPage example_send parseResultSet (pager_on reset_test_script) ''exec-1'' None) =
     Inr \<lparr> rows = [[(''a'', Some ''1'')]], nextToken = None, rowCount = 1 \<rparr> \<and>
   fst (fetchPage example_send parseResultSet
          (reset new_AthenaQueryResultParser
             (snd (fetchPage example_send parseResultSet (pager_on reset_test_script) ''exec-1'' None)))
          ''exec-2'' None) =
     Inr \<lparr> rows = [[(''b'', Some ''2'')]], nextToken = None, rowCount = 1 \<rparr>"
proof -
  let ?P1 = "snd (fetchPage example_send parseResultSet (pager_on two_queries_script) ''exec-1'' None)"
  let ?rq1 = "\<lparr> QueryExecutionId = ''exec-1'', NextToken = None,
                MaxResults = Some (1000::int), QueryResultType = None \<rparr>"
  let ?rq2 = "\<lparr> QueryExecutionId = ''exec-2'', NextToken = None,
                MaxResults = Some (1000::int), QueryResultType = None \<rparr>"
  have P1: "?P1 = (pager_on two_queries_script)
      \<lparr>client := ([?rq1], tl two_queries_script), parser := \<lparr> headerSeen = True \<rparr>\<rparr>"
    by (simp add: fetchPage_def example_send_def spy_def scripted_def pager_on_def constructor_def
        no_options_def two_queries_script_def parseResultSet_def isHeaderRow_def DEFAULT_MAX_RESULTS_def
        new_AthenaQueryResultParser_def)
  have hs: "headerSeen (parser ?P1)"
    by (simp add: P1)
  have s: "example_send (client ?P1)
      \<lparr> QueryExecutionId = ''exec-2'', NextToken = None,
        MaxResults = Some (maxResults (options ?P1)), QueryResultType = None \<rparr> =
      (Inr \<lparr> ResultSet = Some \<lparr> ColumnInfo = [''b''], Rows = [[Some ''b''], [Some ''2'']] \<rparr>,
             NextToken_out = None \<rparr>, ([?rq1, ?rq2], []))"
    unfolding P1
    by (simp add: example_send_def spy_def scripted_def pager_on_def constructor_def
        no_options_def two_queries_script_def DEFAULT_MAX_RESULTS_def)
  have hd: "isHeaderRow [''b''] [Some ''b'']"
    by (simp add: isHeaderRow_def)
  have r: "toParsedRow [''b''] [Some ''2''] = [(''b'', Some ''2'')]"
    "toParsedRow [''b''] [Some ''b''] = [(''b'', Some ''b'')]"
    by (simp_all add: toParsedRow_def)
  note inst = reset_restores_header_skipping[where thisA = ?P1 and sendf = example_send
      and q = "''exec-2''" and cols = "[''b'']" and header = "[Some ''b'']" and dat = "[Some ''2'']"
      and tok' = None and c' = "([?rq1, ?rq2], [])" and np = new_AthenaQueryResultParser and this = ?P1]
  from inst s hs hd have two: "fst (fetchPage example_send parseResultSet
          (reset new_AthenaQueryResultParser ?P1) ''exec-2'' None) =
       Inr \<lparr> rows = [[(''b'', Some ''2'')]], nextToken = None, rowCount = 1 \<rparr> \<and>
     fst (fetchPage example_send parseResultSet ?P1 ''exec-2'' None) =
       Inr \<lparr> rows = [[(''b'', Some ''b'')], [(''b'', Some ''2'')]], nextToken = None, rowCount = 2 \<rparr>"
    unfolding r by blast
  have t1: "fst (fetchPage example_send parseResultSet (pager_on reset_test_script) ''exec-1'' None) =
     Inr \<lparr> rows = [[(''a'', Some ''1'')]], nextToken = None, rowCount = 1 \<rparr>"
    by code_simp
  have t2: "fst (fetchPage example_send parseResultSet
          (reset new_AthenaQueryResultParser
             (snd (fetchPage example_send parseResultSet (pager_on reset_test_script) ''exec-1'' None)))
          ''exec-2'' None) =
     Inr \<lparr> rows = [[(''b'', Some ''2'')]], nextToken = None, rowCount = 1 \<rparr>"
    by code_simp
  from hs two t1 t2 show ?thesis by blast
qed

text \<open>
  C7, as stated, fails for a row type of thenables: with an \<open>async\<close> row parser the pages
  of \<open>iteratePagesWith\<close> hold three promises and the run ends without error, while
  \<open>iterateRows\<close>, which awaits each row at its \<open>yield\<close>, yields the one value \<open>1\<close> and then
  throws the rejection of the second row, after a single request.
\<close>

theorem iterateRows_awaits_rows_counterexample:
  "concat (map (rows \<circ> fst)
     (fst (the (iteratePagesWith example_send parseResultSetWith example_pager ''exec-1'' async_rowParser)))) =
     [Fulfilled ''1'', Rejected ''bad id'', Fulfilled ''3''] \<and>
   fst (snd (the (iteratePagesWith example_send parseResultSetWith example_pager ''exec-1'' async_rowParser)))
     = None \<and>
   map fst (fst (the (iterateRows example_send parseResultSetWith await_Promise example_pager ''exec-1''
     async_rowParser))) = [''1''] \<and>
   fst (snd (the (iterateRows example_send parseResultSetWith await_Promise example_pager ''exec-1''
     async_rowParser))) = Some ''bad id'' \<and>
   length (fst (client (snd (snd (the (iterateRows example_send parseResultSetWith await_Promise example_pager
     ''exec-1'' async_rowParser)))))) = 1"
  by code_simp

text \<open>
  C7, amended. For every row type whose values are not thenables (awaiting a row gives
  the row itself), \<open>iterateRows\<close> yields exactly the concatenation of the rows of the pages
  that \<open>iteratePagesWith\<close> produces, in page order and within a page in row order: the
  consumer's loop over \<open>iterateRows\<close> ends exactly when the loop over \<open>iteratePagesWith\<close>
  ends, with the same error if any and the same last state of the pager, and each row is
  yielded in the pager state of its own page's \<open>yield\<close> (no later page has been fetched).
  When the pages never end, neither do the rows.
\<close>

theorem iterateRows_is_concatenation:
  "iterateRows sendf prsw await_value this q rp =
     map_option (\<lambda>(ps, err, s). (concat (map rows_of_page ps), err, s))
       (iteratePagesWith sendf prsw this q rp)"
proof (cases "iteratePagesWith sendf prsw this q rp")
  case (Some res)
  then show ?thesis
    using pages_to_rows[of "\<lambda>f s. Some (iteratePagesWith_next sendf prsw q rp f s)" Start this res
        sendf prsw q rp]
    by (simp add: iteratePagesWith_def iterateRows_def split: prod.splits)
next
  case None
  show ?thesis
  proof (cases "iterateRows sendf prsw await_value this q rp")
    case (Some res)
    then show ?thesis
      using rows_to_pages[of "iterateRows_next sendf prsw await_value q rp" "InPage Start []" this res
          sendf prsw q rp] None
      by (simp add: iteratePagesWith_def iterateRows_def)
  next
    case None': None
    with None show ?thesis by simp
  qed
qed

theorem iterateRows_is_concatenation_witness:
  "map (rowCount \<circ> fst) (fst (the (iteratePagesWith example_send parseResultSetWith example_pager ''exec-1''
      example_rowParser))) = [2, 1] \<and>
   map fst (fst (the (iterateRows example_send parseResultSetWith await_value example_pager ''exec-1''
      example_rowParser))) = [''1'', ''2'', ''3'']"
proof -
  let ?pw = "iteratePagesWith example_send parseResultSetWith example_pager ''exec-1'' example_rowParser"
  have a: "map (rowCount \<circ> fst) (fst (the ?pw)) = [2, 1]"
    by code_simp
  have b: "?pw \<noteq> None \<and> map fst (concat (map rows_of_page (fst (the ?pw)))) = [''1'', ''2'', ''3'']"
    by code_simp
  then have "map fst (fst (the (iterateRows example_send parseResultSetWith await_value example_pager ''exec-1''
      example_rowParser))) = [''1'', ''2'', ''3'']"
    unfolding iterateRows_is_concatenation[of example_send parseResultSetWith example_pager "''exec-1''"
        example_rowParser]
    by (cases ?pw) auto
  with a show ?thesis by blast
qed

text \<open>
  C1. A chain of \<open>N\<close> pages, page \<open>i\<close> carrying a token that leads to page \<open>i+1\<close> and the last
  page none, should give \<open>N\<close> Page Results after \<open>N\<close> fetches. Here \<open>N = 2\<close> and the token of
  page 1 is the empty string: \<open>hasNextPage\<close> holds of page 1 and \<open>fetchPage\<close> with that token
  returns page 2, whose token is absent, yet the run of \<open>iteratePages\<close> is page 1 alone,
  after one request. (On chains whose tokens are non-empty, \<open>iteratePages_follows_chain\<close>
  gives the \<open>N\<close> pages, the \<open>N\<close> requests and their order.)
\<close>

theorem iteratePages_empty_token_first_page:
  "map fst (fst (the (iteratePages example_send parseResultSet (pager_on empty_token_script) ''exec-1''))) =
     [\<lparr> rows = [[(''x'', Some ''1'')]], nextToken = Some [], rowCount = 1 \<rparr>] \<and>
   fst (snd (the (iteratePages example_send parseResultSet (pager_on empty_token_script) ''exec-1''))) = None \<and>
   fst (client (snd (snd (the (iteratePages example_send parseResultSet (pager_on empty_token_script)
       ''exec-1''))))) =
     [\<lparr> QueryExecutionId = ''exec-1'', NextToken = None, MaxResults = Some 1000, QueryResultType = None \<rparr>] \<and>
   hasNextPage \<lparr> rows = [[(''x'', Some ''1'')]], nextToken = Some [], rowCount = 1 \<rparr> \<and>
   fst (fetchPage example_send parseResultSet
          (snd (snd (the (iteratePages example_send parseResultSet (pager_on empty_token_script) ''exec-1''))))
          ''exec-1'' (Some [])) =
     Inr \<lparr> rows = [[(''x'', Some ''2'')]], nextToken = None, rowCount = 1 \<rparr>"
  by code_simp

text \<open>
  C2. The run of \<open>iteratePages\<close> should end exactly with the first page whose token is
  absent. Here the service has three pages with the tokens \<open>t2\<close>, the empty string and
  none: the run ends, without error, after the second page, whose token is present;
  the page whose token is absent is the third, which \<open>fetchPage\<close> with the second page's
  token returns and the run never requests.
\<close>

theorem iteratePages_ends_at_empty_token:
  "map (nextToken \<circ> fst)
     (fst (the (iteratePages example_send parseResultSet (pager_on empty_token_script3) ''exec-1''))) =
     [Some ''t2'', Some []] \<and>
   map (rows \<circ> fst)
     (fst (the (iteratePages example_send parseResultSet (pager_on empty_token_script3) ''exec-1''))) =
     [[[(''x'', Some ''1'')]], [[(''x'', Some ''2'')]]] \<and>
   fst (snd (the (iteratePages example_send parseResultSet (pager_on empty_token_script3) ''exec-1''))) = None \<and>
   fst (fetchPage example_send parseResultSet
          (snd (snd (the (iteratePages example_send parseResultSet (pager_on empty_token_script3) ''exec-1''))))
          ''exec-1'' (Some [])) =
     Inr \<lparr> rows = [[(''x'', Some ''3'')]], nextToken = None, rowCount = 1 \<rparr>"
  by code_simp

end
